theory Spec2Isabelle
  imports Complex_Main
begin

section \<open>Conventions of the embedding\<close>

text \<open>
  The trading engine is embedded function by function.  The conventions are:
  \<^item> a C++ \<open>double\<close> is a \<open>real\<close>, without infinities or NaN.  In the pairs strategy,
    whose running statistics depend on it, every operation on doubles is followed by the
    rounding of IEEE binary64; elsewhere the arithmetic is the one the code writes down,
    without rounding;
  \<^item> a \<open>TimePoint\<close> is an \<open>int\<close>, the number of clock ticks (nanoseconds) since the
    epoch, and every \<open>Clock::now()\<close> is an explicit argument of the function that reads
    the clock;
  \<^item> \<open>std::chrono::duration_cast\<close> to a coarser unit truncates towards zero;
  \<^item> a \<open>std::unordered_map\<close> that the code iterates over is an association list with
    one entry per key, in iteration order; one that is only searched is a map;
  \<^item> locks and memory orders are left out: each member function is one atomic step;
  \<^item> record fields carry a prefix (\<open>fill_\<close>, \<open>ord_\<close>, \<open>pos_\<close>, ...) because
    several structs of the source share field names.
\<close>

type_synonym TimePoint = int

definition duration_cast :: "int \<Rightarrow> int \<Rightarrow> int" where
  "duration_cast unit d = sgn d * (\<bar>d\<bar> div unit)"

definition ns_per_ms :: int where "ns_per_ms = 1000000"
definition ns_per_s :: int where "ns_per_s = 1000000000"
definition ns_per_us :: int where "ns_per_us = 1000"

text \<open>
  A counter of type \<open>int\<close> is a 32-bit two's complement integer: the result of an
  increment or decrement is reduced into its range.
\<close>

definition int32 :: "int \<Rightarrow> int" where
  "int32 x = (x + 2147483648) mod 4294967296 - 2147483648"



section \<open>core/types.hpp\<close>

datatype Venue = BINANCE | BYBIT | COINBASE | KRAKEN | FTX | UNKNOWN

datatype Side = BUY | SELL

datatype OrderType = LIMIT | MARKET | LIMIT_MAKER | LIMIT_IOC | STOP_LOSS | STOP_LIMIT

datatype OrderStatus = PENDING | NEW | PARTIALLY_FILLED | FILLED | CANCELED | REJECTED | EXPIRED

record Fill =
  fill_id :: string
  fill_order_id :: string
  fill_client_order_id :: string
  fill_symbol :: string
  fill_side :: Side
  fill_price :: real
  fill_quantity :: real
  fill_fee :: real
  fill_fee_currency :: string
  fill_is_maker :: bool
  fill_venue :: Venue
  fill_exchange_time :: TimePoint
  fill_received_time :: TimePoint
  fill_processed_time :: TimePoint
  fill_latency_us :: int
  fill_bid_at_fill :: real
  fill_ask_at_fill :: real
  fill_mid_at_fill :: real

text \<open>The constructor \<open>Fill()\<close>; strings are empty and time points are value-initialised.\<close>

definition Fill_init :: Fill where
  "Fill_init = \<lparr> fill_id = [], fill_order_id = [], fill_client_order_id = [],
     fill_symbol = [], fill_side = BUY, fill_price = 0, fill_quantity = 0, fill_fee = 0,
     fill_fee_currency = [], fill_is_maker = False, fill_venue = UNKNOWN,
     fill_exchange_time = 0, fill_received_time = 0, fill_processed_time = 0,
     fill_latency_us = 0, fill_bid_at_fill = 0, fill_ask_at_fill = 0, fill_mid_at_fill = 0 \<rparr>"

record Order =
  ord_order_id :: string
  ord_client_order_id :: string
  ord_symbol :: string
  ord_venue :: Venue
  ord_side :: Side
  ord_type :: OrderType
  ord_price :: real
  ord_quantity :: real
  ord_filled_quantity :: real
  ord_remaining_quantity :: real
  ord_status :: OrderStatus
  ord_reject_reason :: string
  ord_created_time :: TimePoint
  ord_sent_time :: TimePoint
  ord_ack_time :: TimePoint
  ord_completed_time :: TimePoint
  ord_strategy_name :: string
  ord_signal_id :: int
  ord_risk_notional :: real

text \<open>The constructor \<open>Order()\<close>; the four time points are value-initialised.\<close>

definition Order_init :: Order where
  "Order_init = \<lparr> ord_order_id = [], ord_client_order_id = [], ord_symbol = [],
     ord_venue = UNKNOWN, ord_side = BUY, ord_type = LIMIT, ord_price = 0, ord_quantity = 0,
     ord_filled_quantity = 0, ord_remaining_quantity = 0, ord_status = PENDING,
     ord_reject_reason = [], ord_created_time = 0, ord_sent_time = 0, ord_ack_time = 0,
     ord_completed_time = 0, ord_strategy_name = [], ord_signal_id = 0,
     ord_risk_notional = 0 \<rparr>"

definition is_active :: "Order \<Rightarrow> bool" where
  "is_active order \<longleftrightarrow> ord_status order = NEW \<or> ord_status order = PARTIALLY_FILLED"

definition is_complete :: "Order \<Rightarrow> bool" where
  "is_complete order \<longleftrightarrow> ord_status order = FILLED \<or> ord_status order = CANCELED \<or>
     ord_status order = REJECTED \<or> ord_status order = EXPIRED"

section \<open>Association lists for the maps that are iterated over\<close>

text \<open>
  \<open>m[key] = value\<close>: the entry of an existing key is replaced in place, a new key gets a
  new entry.
\<close>

fun put_entry :: "'k \<Rightarrow> 'v \<Rightarrow> ('k \<times> 'v) list \<Rightarrow> ('k \<times> 'v) list" where
  "put_entry key val [] = [(key, val)]"
| "put_entry key val ((k, v) # rest) =
     (if k = key then (k, val) # rest else (k, v) # put_entry key val rest)"

text \<open>\<open>m.erase(key)\<close>.\<close>

definition erase_entry :: "'k \<Rightarrow> ('k \<times> 'v) list \<Rightarrow> ('k \<times> 'v) list" where
  "erase_entry key m = filter (\<lambda>(k, v). k \<noteq> key) m"

section \<open>market\_data/order\_book.hpp\<close>

text \<open>
  The two \<open>std::map\<close>s of an order book are lists of (price, quantity) levels in
  iteration order: bids by descending price, asks by ascending price.
\<close>

record OrderBook =
  bids :: "(real \<times> real) list"
  asks :: "(real \<times> real) list"

definition get_best_bid :: "OrderBook \<Rightarrow> real" where
  "get_best_bid book = (case bids book of [] \<Rightarrow> 0 | (price, qty) # rest \<Rightarrow> price)"

definition get_best_ask :: "OrderBook \<Rightarrow> real" where
  "get_best_ask book = (case asks book of [] \<Rightarrow> 0 | (price, qty) # rest \<Rightarrow> price)"

definition get_mid_price :: "OrderBook \<Rightarrow> real" where
  "get_mid_price book =
     (let bid = get_best_bid book; ask = get_best_ask book
      in if bid = 0 \<or> ask = 0 then 0 else (bid + ask) / 2)"

section \<open>core/circular\_buffer.hpp\<close>

text \<open>
  The buffer with its array and its three indices.  \<open>size_t\<close> values are natural
  numbers: every index stays below the capacity.  The functions that throw return
  \<open>None\<close> where the source throws.
\<close>

record 'a CircularBuffer =
  buf_data :: "'a list"
  buf_capacity :: nat
  buf_size :: nat
  buf_head :: nat
  buf_tail :: nat

text \<open>
  The constructor; \<open>init\<close> is what the freshly allocated slots hold (\<open>T()\<close>, or
  whatever the memory holds for a trivially constructible \<open>T\<close>).
\<close>

definition CircularBuffer_init :: "nat \<Rightarrow> 'a \<Rightarrow> 'a CircularBuffer option" where
  "CircularBuffer_init capacity init =
     (if capacity = 0 then None
      else Some \<lparr> buf_data = replicate capacity init, buf_capacity = capacity, buf_size = 0,
                  buf_head = 0, buf_tail = 0 \<rparr>)"

definition push_back :: "'a \<Rightarrow> 'a CircularBuffer \<Rightarrow> 'a CircularBuffer" where
  "push_back val b =
     (let b1 = b\<lparr> buf_data := (buf_data b)[buf_head b := val],
                  buf_head := (buf_head b + 1) mod buf_capacity b \<rparr>
      in if buf_size b < buf_capacity b then b1\<lparr> buf_size := buf_size b + 1 \<rparr>
         else b1\<lparr> buf_tail := (buf_tail b + 1) mod buf_capacity b \<rparr>)"

definition pop_front :: "'a CircularBuffer \<Rightarrow> 'a CircularBuffer option" where
  "pop_front b =
     (if buf_size b = 0 then None
      else Some (b\<lparr> buf_tail := (buf_tail b + 1) mod buf_capacity b,
                    buf_size := buf_size b - 1 \<rparr>))"


definition front :: "'a CircularBuffer \<Rightarrow> 'a option" where
  "front b = (if buf_size b = 0 then None else Some (buf_data b ! buf_tail b))"


definition empty :: "'a CircularBuffer \<Rightarrow> bool" where
  "empty b \<longleftrightarrow> buf_size b = 0"

definition full :: "'a CircularBuffer \<Rightarrow> bool" where
  "full b \<longleftrightarrow> buf_size b = buf_capacity b"

definition clear :: "'a CircularBuffer \<Rightarrow> 'a CircularBuffer" where
  "clear b = b\<lparr> buf_size := 0, buf_head := 0, buf_tail := 0 \<rparr>"

text \<open>
  The elements a range-based \<open>for\<close> visits: \<open>begin()\<close> to \<open>end()\<close> run the index from
  0 to \<open>size_\<close>, and each dereference is \<open>operator[]\<close>.
\<close>

definition elements :: "'a CircularBuffer \<Rightarrow> 'a list" where
  "elements b = map (\<lambda>index. buf_data b ! ((buf_tail b + index) mod buf_capacity b))
                    [0 ..< buf_size b]"

section \<open>core/risk\_manager.hpp\<close>

record Position =
  pos_symbol :: string
  pos_quantity :: real
  pos_avg_price :: real
  pos_realized_pnl :: real
  pos_unrealized_pnl :: real
  pos_total_fees_paid :: real
  pos_notional_value :: real
  pos_var_contribution :: real
  pos_opened_time :: TimePoint
  pos_last_update_time :: TimePoint

text \<open>The constructor \<open>Position()\<close>, which reads the clock for its two time points.\<close>

definition Position_init :: "TimePoint \<Rightarrow> Position" where
  "Position_init now = \<lparr> pos_symbol = [], pos_quantity = 0, pos_avg_price = 0,
     pos_realized_pnl = 0, pos_unrealized_pnl = 0, pos_total_fees_paid = 0,
     pos_notional_value = 0, pos_var_contribution = 0, pos_opened_time = now,
     pos_last_update_time = now \<rparr>"

definition is_flat :: "Position \<Rightarrow> bool" where
  "is_flat pos \<longleftrightarrow> \<bar>pos_quantity pos\<bar> < 1 / 10000000"

definition is_long :: "Position \<Rightarrow> bool" where
  "is_long pos \<longleftrightarrow> pos_quantity pos > 1 / 10000000"

definition is_short :: "Position \<Rightarrow> bool" where
  "is_short pos \<longleftrightarrow> pos_quantity pos < - (1 / 10000000)"

definition calculate_unrealized :: "Position \<Rightarrow> real \<Rightarrow> real" where
  "calculate_unrealized pos current_price =
     (if is_flat pos then 0 else pos_quantity pos * (current_price - pos_avg_price pos))"

definition update_unrealized :: "real \<Rightarrow> Position \<Rightarrow> Position" where
  "update_unrealized current_price pos =
     pos\<lparr> pos_unrealized_pnl := calculate_unrealized pos current_price,
          pos_notional_value := \<bar>pos_quantity pos * current_price\<bar> \<rparr>"

record RiskLimits =
  max_position_per_symbol :: real
  max_total_gross_exposure :: real
  max_total_net_exposure :: real
  max_daily_loss :: real
  max_daily_profit :: real
  trailing_stop_pct :: real
  max_order_size :: real
  max_orders_per_second :: int
  max_single_symbol_pct :: real
  max_position_hold_seconds :: int

definition RiskLimits_init :: RiskLimits where
  "RiskLimits_init = \<lparr> max_position_per_symbol = 50000, max_total_gross_exposure = 150000,
     max_total_net_exposure = 100000, max_daily_loss = 5000, max_daily_profit = 20000,
     trailing_stop_pct = 1 / 2, max_order_size = 10000, max_orders_per_second = 50,
     max_single_symbol_pct = 4 / 10, max_position_hold_seconds = 300 \<rparr>"

text \<open>
  The state of a \<open>RiskManager\<close>.  \<open>positions_\<close> is iterated over, so it is an
  association list; the reference to the order tracker is never used by the class and is
  left out.
\<close>

record RiskManager =
  limits :: RiskLimits
  positions :: "(string \<times> Position) list"
  daily_realized_pnl :: real
  peak_daily_pnl :: real
  recent_fills :: "Fill list"

definition RiskManager_init :: "RiskLimits \<Rightarrow> RiskManager" where
  "RiskManager_init lims = \<lparr> limits = lims, positions = [], daily_realized_pnl = 0,
     peak_daily_pnl = 0, recent_fills = [] \<rparr>"

record RiskCheckResult =
  passed :: bool
  reason :: string

text \<open>\<open>positions_.find(symbol)\<close>.\<close>

definition find_position :: "(string \<times> Position) list \<Rightarrow> string \<Rightarrow> Position option" where
  "find_position ps symbol = map_of ps symbol"


text \<open>The loop \<open>for (auto& [symbol, pos] : positions_) unrealized += pos.unrealized_pnl\<close>.\<close>

definition sum_unrealized :: "(string \<times> Position) list \<Rightarrow> real" where
  "sum_unrealized ps = foldl (\<lambda>unrealized (symbol, pos). unrealized + pos_unrealized_pnl pos) 0 ps"

text \<open>The overload \<open>get_total_pnl_internal(double)\<close>; its argument is not used.\<close>

definition get_total_pnl_internal :: "RiskManager \<Rightarrow> real \<Rightarrow> real" where
  "get_total_pnl_internal rm generic_price = daily_realized_pnl rm + sum_unrealized (positions rm)"

definition calculate_total_gross_exposure :: "RiskManager \<Rightarrow> real" where
  "calculate_total_gross_exposure rm =
     foldl (\<lambda>total (symbol, pos). total + pos_notional_value pos) 0 (positions rm)"

definition calculate_total_net_exposure :: "RiskManager \<Rightarrow> real" where
  "calculate_total_net_exposure rm =
     foldl (\<lambda>total (symbol, pos). total + pos_quantity pos * pos_avg_price pos) 0 (positions rm)"

definition check_order :: "RiskManager \<Rightarrow> Order \<Rightarrow> real \<Rightarrow> RiskCheckResult" where
  "check_order rm order current_price =
    (let current_pnl = get_total_pnl_internal rm current_price in
     if current_pnl < - max_daily_loss (limits rm)
     then \<lparr> passed = False, reason = ''Daily loss limit exceeded'' \<rparr>
     else
     let drawdown_from_peak = peak_daily_pnl rm - current_pnl;
         max_drawdown = max_daily_loss (limits rm) * trailing_stop_pct (limits rm) in
     if drawdown_from_peak > max_drawdown
     then \<lparr> passed = False, reason = ''Trailing stop hit'' \<rparr>
     else
     let order_notional = ord_quantity order * ord_price order in
     if order_notional > max_order_size (limits rm)
     then \<lparr> passed = False, reason = ''Order size exceeds limit'' \<rparr>
     else
     let pos_it = find_position (positions rm) (ord_symbol order);
         current_notional = (case pos_it of None \<Rightarrow> 0
                             | Some pos \<Rightarrow> \<bar>pos_quantity pos * current_price\<bar>);
         held = (case pos_it of None \<Rightarrow> 0 | Some pos \<Rightarrow> pos_quantity pos);
         new_quantity = (if ord_side order = BUY then held + ord_quantity order
                         else held - ord_quantity order);
         new_notional = \<bar>new_quantity * current_price\<bar> in
     if new_notional > max_position_per_symbol (limits rm)
     then \<lparr> passed = False, reason = ''Symbol position limit exceeded'' \<rparr>
     else
     let total_gross = calculate_total_gross_exposure rm;
         order_impact = (case pos_it of None \<Rightarrow> order_notional
                         | Some pos \<Rightarrow>
                             if (is_long pos \<and> ord_side order = SELL) \<or>
                                (is_short pos \<and> ord_side order = BUY)
                             then max 0 (new_notional - current_notional)
                             else order_notional) in
     if total_gross + order_impact > max_total_gross_exposure (limits rm)
     then \<lparr> passed = False, reason = ''Total gross exposure limit exceeded'' \<rparr>
     else
     let portfolio_value = total_gross + order_impact in
     if portfolio_value > 0 \<and> new_notional / portfolio_value > max_single_symbol_pct (limits rm)
     then \<lparr> passed = False, reason = ''Concentration limit exceeded'' \<rparr>
     else \<lparr> passed = True, reason = [] \<rparr>)"

text \<open>
  \<open>on_fill\<close>.  \<open>positions_[fill.symbol]\<close> default-constructs a missing entry; the
  three branches follow the source; the clock readings of one call are one instant
  \<open>now\<close>.
\<close>

definition on_fill :: "TimePoint \<Rightarrow> Fill \<Rightarrow> RiskManager \<Rightarrow> RiskManager" where
  "on_fill now fill rm =
    (let pos = (case find_position (positions rm) (fill_symbol fill) of
                  None \<Rightarrow> Position_init now | Some p \<Rightarrow> p);
         signed_quantity = (if fill_side fill = BUY then fill_quantity fill
                            else - fill_quantity fill);
         closed_quantity = min \<bar>signed_quantity\<bar> \<bar>pos_quantity pos\<bar>;
         pnl = closed_quantity * (fill_price fill - pos_avg_price pos) *
               (if is_long pos then 1 else - 1);
         total_cost = pos_quantity pos * pos_avg_price pos + signed_quantity * fill_price fill;
         pos' =
           (if is_flat pos then
              pos\<lparr> pos_symbol := fill_symbol fill, pos_quantity := signed_quantity,
                   pos_avg_price := fill_price fill,
                   pos_opened_time := fill_received_time fill,
                   pos_total_fees_paid := fill_fee fill \<rparr>
            else if (is_long pos \<and> fill_side fill = BUY) \<or>
                    (is_short pos \<and> fill_side fill = SELL) then
              pos\<lparr> pos_quantity := pos_quantity pos + signed_quantity,
                   pos_avg_price := total_cost / (pos_quantity pos + signed_quantity),
                   pos_total_fees_paid := pos_total_fees_paid pos + fill_fee fill \<rparr>
            else
              pos\<lparr> pos_realized_pnl := pos_realized_pnl pos + (pnl - fill_fee fill),
                   pos_quantity := pos_quantity pos + signed_quantity,
                   pos_total_fees_paid := pos_total_fees_paid pos + fill_fee fill \<rparr>);
         daily' =
           (if is_flat pos \<or> (is_long pos \<and> fill_side fill = BUY) \<or>
               (is_short pos \<and> fill_side fill = SELL)
            then daily_realized_pnl rm
            else daily_realized_pnl rm + (pnl - fill_fee fill));
         pushed = recent_fills rm @ [fill]
     in rm\<lparr> positions := put_entry (fill_symbol fill)
                             (pos'\<lparr> pos_last_update_time := now \<rparr>) (positions rm),
            daily_realized_pnl := daily',
            recent_fills := (if length pushed > 1000 then tl pushed else pushed) \<rparr>)"

text \<open>
  The loop of \<open>update_market_prices\<close>: a position whose symbol has a price is marked
  and its unrealized P&L is added to the running total; the others are passed over.
\<close>

fun mark_positions :: "(string \<rightharpoonup> real) \<Rightarrow> (string \<times> Position) list \<Rightarrow> real \<Rightarrow>
    (string \<times> Position) list \<times> real" where
  "mark_positions prices [] total_unrealized = ([], total_unrealized)"
| "mark_positions prices ((symbol, pos) # rest) total_unrealized =
     (case prices symbol of
        Some price \<Rightarrow>
          (let pos' = update_unrealized price pos;
               (rest', total') = mark_positions prices rest
                                   (total_unrealized + pos_unrealized_pnl pos')
           in ((symbol, pos') # rest', total'))
      | None \<Rightarrow>
          (let (rest', total') = mark_positions prices rest total_unrealized
           in ((symbol, pos) # rest', total')))"

text \<open>
  \<open>update_market_prices\<close>.  The compare-and-set loop on the peak, run without
  interference, stores \<open>total_pnl\<close> exactly when it is above the current peak.
\<close>

definition update_market_prices :: "(string \<rightharpoonup> real) \<Rightarrow> RiskManager \<Rightarrow> RiskManager" where
  "update_market_prices prices rm =
    (let (ps', total_unrealized) = mark_positions prices (positions rm) 0;
         total_pnl = daily_realized_pnl rm + total_unrealized;
         current_peak = peak_daily_pnl rm
     in rm\<lparr> positions := ps',
            peak_daily_pnl := (if total_pnl > current_peak then total_pnl else current_peak) \<rparr>)"

record RiskStats =
  total_realized_pnl :: real
  total_unrealized_pnl :: real
  total_pnl :: real
  gross_exposure :: real
  net_exposure :: real
  peak_pnl_today :: real
  drawdown_from_peak :: real
  num_positions :: nat
  num_fills :: nat

definition get_stats :: "RiskManager \<Rightarrow> RiskStats" where
  "get_stats rm =
    (let realized = daily_realized_pnl rm;
         unrealized = sum_unrealized (positions rm);
         total = realized + unrealized;
         peak = peak_daily_pnl rm
     in \<lparr> total_realized_pnl = realized, total_unrealized_pnl = unrealized, total_pnl = total,
          gross_exposure = calculate_total_gross_exposure rm,
          net_exposure = calculate_total_net_exposure rm,
          peak_pnl_today = peak, drawdown_from_peak = peak - total,
          num_positions = length (positions rm), num_fills = length (recent_fills rm) \<rparr>)"

section \<open>core/circuit\_breaker.hpp\<close>

datatype CircuitState = CLOSED | OPEN | HALF_OPEN

text \<open>The two durations of the configuration are whole seconds.\<close>

record CircuitBreakerConfig =
  failure_threshold :: int
  success_threshold :: int
  timeout :: int
  test_period :: int

definition CircuitBreakerConfig_init :: CircuitBreakerConfig where
  "CircuitBreakerConfig_init = \<lparr> failure_threshold = 5, success_threshold = 3, timeout = 30,
     test_period = 10 \<rparr>"

record CircuitBreaker =
  cb_name :: string
  cb_config :: CircuitBreakerConfig
  cb_state :: CircuitState
  failure_count :: int
  success_count :: int
  last_failure_time :: TimePoint
  half_open_start :: TimePoint

text \<open>
  The constructor.  It does not set the two time points; \<open>t0\<close> and \<open>t1\<close> are the
  values they hold.
\<close>

definition CircuitBreaker_init ::
    "string \<Rightarrow> CircuitBreakerConfig \<Rightarrow> TimePoint \<Rightarrow> TimePoint \<Rightarrow> CircuitBreaker" where
  "CircuitBreaker_init name config t0 t1 =
     \<lparr> cb_name = name, cb_config = config, cb_state = CLOSED, failure_count = 0,
       success_count = 0, last_failure_time = t0, half_open_start = t1 \<rparr>"

text \<open>\<open>open(reason)\<close>; the reason only goes to the log.\<close>

definition open_breaker :: "TimePoint \<Rightarrow> CircuitBreaker \<Rightarrow> CircuitBreaker" where
  "open_breaker now cb =
     (if cb_state cb \<noteq> OPEN then cb\<lparr> cb_state := OPEN, last_failure_time := now \<rparr> else cb)"

text \<open>
  \<open>allow_request\<close>.  Without interference the compare-and-exchange from OPEN to
  HALF\_OPEN succeeds.
\<close>

definition allow_request :: "TimePoint \<Rightarrow> CircuitBreaker \<Rightarrow> bool \<times> CircuitBreaker" where
  "allow_request now cb =
     (if cb_state cb = OPEN then
        (let elapsed = duration_cast ns_per_s (now - last_failure_time cb)
         in if elapsed \<ge> timeout (cb_config cb)
            then (True, cb\<lparr> cb_state := HALF_OPEN, half_open_start := now \<rparr>)
            else (False, cb))
      else if cb_state cb = HALF_OPEN then
        (let elapsed = duration_cast ns_per_s (now - half_open_start cb)
         in if elapsed \<ge> test_period (cb_config cb)
            then (if success_count cb < success_threshold (cb_config cb)
                  then (False, open_breaker now cb)
                  else (True, cb))
            else (True, cb))
      else (True, cb))"

definition record_success :: "CircuitBreaker \<Rightarrow> CircuitBreaker" where
  "record_success cb =
     (if cb_state cb = HALF_OPEN then
        (let successes = int32 (success_count cb + 1);
             cb1 = cb\<lparr> success_count := successes \<rparr>
         in if successes \<ge> success_threshold (cb_config cb)
            then cb1\<lparr> cb_state := CLOSED, failure_count := 0, success_count := 0 \<rparr>
            else cb1)
      else if cb_state cb = CLOSED then
        (let current = failure_count cb
         in if current > 0 then cb\<lparr> failure_count := int32 (current - 1) \<rparr> else cb)
      else cb)"

definition record_failure :: "TimePoint \<Rightarrow> CircuitBreaker \<Rightarrow> CircuitBreaker" where
  "record_failure now cb =
     (if cb_state cb = HALF_OPEN then open_breaker now cb
      else if cb_state cb = CLOSED then
        (let failures = int32 (failure_count cb + 1);
             cb1 = cb\<lparr> failure_count := failures \<rparr>
         in if failures \<ge> failure_threshold (cb_config cb) then open_breaker now cb1 else cb1)
      else cb)"

text \<open>\<open>close()\<close>, the manual override.\<close>

definition close_breaker :: "CircuitBreaker \<Rightarrow> CircuitBreaker" where
  "close_breaker cb = cb\<lparr> cb_state := CLOSED, failure_count := 0, success_count := 0 \<rparr>"

section \<open>core/order\_tracker.hpp\<close>

text \<open>
  The tracker.  \<open>orders_\<close> is iterated over by the two cleanups, so it is an
  association list; the two index maps are only searched; the active orders are a set.
\<close>

record OrderTracker =
  ot_orders :: "(string \<times> Order) list"
  ot_order_id_to_client_id :: "string \<rightharpoonup> string"
  ot_symbol_orders :: "string \<rightharpoonup> string list"
  ot_active_orders :: "string set"

definition OrderTracker_init :: OrderTracker where
  "OrderTracker_init = \<lparr> ot_orders = [], ot_order_id_to_client_id = Map.empty,
     ot_symbol_orders = Map.empty, ot_active_orders = {} \<rparr>"

definition MAX_ORDERS :: nat where
  "MAX_ORDERS = 100000"

text \<open>
  The three index removals that both cleanups perform for an order they drop: the
  exchange id, the active set, and the occurrences of the client id in the list of the
  symbol (when the symbol has a list).
\<close>

definition remove_from_indices :: "string \<Rightarrow> string \<Rightarrow> string \<Rightarrow> OrderTracker \<Rightarrow> OrderTracker" where
  "remove_from_indices order_id client_id symbol t =
     t\<lparr> ot_order_id_to_client_id := (ot_order_id_to_client_id t)(order_id := None),
         ot_active_orders := ot_active_orders t - {client_id},
         ot_symbol_orders :=
           (case ot_symbol_orders t symbol of
              None \<Rightarrow> ot_symbol_orders t
            | Some vec \<Rightarrow> (ot_symbol_orders t)(symbol \<mapsto> removeAll client_id vec)) \<rparr>"

text \<open>
  \<open>cleanup_oldest_internal\<close>.  The completed orders are sorted by completion time
  (\<open>std::sort\<close> leaves the order of equal times open; the model keeps them in map
  order) and the oldest \<open>n\<close> are removed.
\<close>

definition cleanup_oldest_internal :: "nat \<Rightarrow> OrderTracker \<Rightarrow> OrderTracker" where
  "cleanup_oldest_internal n t =
     (let completed_orders =
            map (\<lambda>(client_id, order). (client_id, ord_completed_time order))
                (filter (\<lambda>(client_id, order). is_complete order) (ot_orders t));
          sorted = sort_key snd completed_orders;
          to_remove = min n (length sorted)
      in foldl (\<lambda>t (client_id, completed).
                  case map_of (ot_orders t) client_id of
                    None \<Rightarrow> t
                  | Some order \<Rightarrow>
                      (remove_from_indices (ord_order_id order) client_id (ord_symbol order) t)
                        \<lparr> ot_orders := erase_entry client_id (ot_orders t) \<rparr>)
               t (take to_remove sorted))"

definition track_order :: "Order \<Rightarrow> OrderTracker \<Rightarrow> OrderTracker" where
  "track_order order t =
     (let t1 = (if length (ot_orders t) \<ge> MAX_ORDERS then cleanup_oldest_internal 1000 t else t);
          client_id = ord_client_order_id order
      in t1\<lparr> ot_orders := put_entry client_id order (ot_orders t1),
             ot_order_id_to_client_id :=
               (ot_order_id_to_client_id t1)(ord_order_id order \<mapsto> client_id),
             ot_symbol_orders :=
               (ot_symbol_orders t1)(ord_symbol order \<mapsto>
                  (case ot_symbol_orders t1 (ord_symbol order) of None \<Rightarrow> [] | Some vec \<Rightarrow> vec)
                    @ [client_id]),
             ot_active_orders :=
               (if is_active order then insert client_id (ot_active_orders t1)
                else ot_active_orders t1) \<rparr>)"

definition update_order :: "string \<Rightarrow> Order \<Rightarrow> OrderTracker \<Rightarrow> OrderTracker" where
  "update_order client_order_id updated t =
     (case map_of (ot_orders t) client_order_id of
        None \<Rightarrow> t
      | Some stored \<Rightarrow>
          t\<lparr> ot_active_orders :=
                (if is_active stored \<and> \<not> is_active updated
                 then ot_active_orders t - {client_order_id}
                 else if \<not> is_active stored \<and> is_active updated
                 then insert client_order_id (ot_active_orders t)
                 else ot_active_orders t),
              ot_orders := put_entry client_order_id updated (ot_orders t) \<rparr>)"

definition get_order :: "OrderTracker \<Rightarrow> string \<Rightarrow> Order option" where
  "get_order t client_order_id = map_of (ot_orders t) client_order_id"

text \<open>
  The loop of \<open>cleanup_completed\<close> over the entries of \<open>orders_\<close>: a completed order
  whose age in whole seconds exceeds the retention period is removed from the indices and
  from the map, and counted.
\<close>

fun cleanup_scan :: "TimePoint \<Rightarrow> int \<Rightarrow> (string \<times> Order) list \<Rightarrow> OrderTracker \<Rightarrow> nat \<Rightarrow>
    OrderTracker \<times> nat" where
  "cleanup_scan now retention_period [] t removed = (t, removed)"
| "cleanup_scan now retention_period ((key, order) # rest) t removed =
     (if is_complete order \<and>
         duration_cast ns_per_s (now - ord_completed_time order) > retention_period
      then cleanup_scan now retention_period rest
             ((remove_from_indices (ord_order_id order) (ord_client_order_id order)
                 (ord_symbol order) t)
                \<lparr> ot_orders := erase_entry key (ot_orders t) \<rparr>)
             (removed + 1)
      else cleanup_scan now retention_period rest t removed)"

definition cleanup_completed :: "TimePoint \<Rightarrow> int \<Rightarrow> OrderTracker \<Rightarrow> OrderTracker \<times> nat" where
  "cleanup_completed now retention_period t = cleanup_scan now retention_period (ot_orders t) t 0"

section \<open>strategies/order\_book\_imbalance.hpp\<close>

record OBIConfig =
  obi_num_levels :: int
  obi_imbalance_threshold :: real
  obi_min_volume_threshold :: real
  obi_target_profit_bps :: real
  obi_stop_loss_bps :: real
  obi_signal_decay_ms :: int

definition OBIConfig_init :: OBIConfig where
  "OBIConfig_init = \<lparr> obi_num_levels = 5, obi_imbalance_threshold = 35 / 100,
     obi_min_volume_threshold = 10, obi_target_profit_bps = 10, obi_stop_loss_bps = 5,
     obi_signal_decay_ms = 200 \<rparr>"

record OBISignal =
  obi_symbol :: string
  obi_predicted_direction :: Side
  obi_imbalance_ratio :: real
  obi_confidence :: real
  obi_entry_price :: real
  obi_target_price :: real
  obi_stop_price :: real
  obi_generated_at :: TimePoint
  obi_is_valid :: bool

definition OBISignal_init :: OBISignal where
  "OBISignal_init = \<lparr> obi_symbol = [], obi_predicted_direction = BUY, obi_imbalance_ratio = 0,
     obi_confidence = 0, obi_entry_price = 0, obi_target_price = 0, obi_stop_price = 0,
     obi_generated_at = 0, obi_is_valid = False \<rparr>"

text \<open>
  The two volume loops of \<open>analyze\<close>: the levels are visited in book order, the loop
  breaks once \<open>count\<close> has reached \<open>num_levels\<close>, and each visited quantity is added.
\<close>

fun sum_levels :: "int \<Rightarrow> (real \<times> real) list \<Rightarrow> int \<Rightarrow> real \<Rightarrow> real" where
  "sum_levels num_levels [] count volume = volume"
| "sum_levels num_levels ((price, qty) # rest) count volume =
     (if count \<ge> num_levels then volume
      else sum_levels num_levels rest (count + 1) (volume + qty))"

definition analyze :: "OBIConfig \<Rightarrow> TimePoint \<Rightarrow> string \<Rightarrow> OrderBook \<Rightarrow> OBISignal" where
  "analyze cfg now symbol book =
    (let signal = OBISignal_init\<lparr> obi_symbol := symbol, obi_generated_at := now \<rparr>;
         bid_volume = sum_levels (obi_num_levels cfg) (bids book) 0 0;
         ask_volume = sum_levels (obi_num_levels cfg) (asks book) 0 0;
         total_volume = bid_volume + ask_volume
     in if total_volume < obi_min_volume_threshold cfg then signal
        else
        let imbalance = (bid_volume - ask_volume) / total_volume;
            signal1 = signal\<lparr> obi_imbalance_ratio := imbalance \<rparr>;
            abs_imbalance = \<bar>imbalance\<bar>;
            mid = get_mid_price book
        in if abs_imbalance < obi_imbalance_threshold cfg then signal1
           else if imbalance > obi_imbalance_threshold cfg then
             signal1\<lparr> obi_predicted_direction := BUY,
                      obi_confidence := min (abs_imbalance / (7 / 10)) 1,
                      obi_entry_price := mid,
                      obi_target_price := mid * (1 + obi_target_profit_bps cfg / 10000),
                      obi_stop_price := mid * (1 - obi_stop_loss_bps cfg / 10000),
                      obi_is_valid := True \<rparr>
           else if imbalance < - obi_imbalance_threshold cfg then
             signal1\<lparr> obi_predicted_direction := SELL,
                      obi_confidence := min (abs_imbalance / (7 / 10)) 1,
                      obi_entry_price := mid,
                      obi_target_price := mid * (1 - obi_target_profit_bps cfg / 10000),
                      obi_stop_price := mid * (1 + obi_stop_loss_bps cfg / 10000),
                      obi_is_valid := True \<rparr>
           else signal1)"



text \<open>
  The words of the specification: the volume of the top \<open>N\<close> levels of one side, and the
  imbalance of two volumes.
\<close>

definition top_volume :: "int \<Rightarrow> (real \<times> real) list \<Rightarrow> real" where
  "top_volume N levels = sum_list (map snd (take (nat N) levels))"

definition imbalance_of :: "real \<Rightarrow> real \<Rightarrow> real" where
  "imbalance_of v_b v_a = (v_b - v_a) / (v_b + v_a)"

section \<open>latency\_arb\_optimized.hpp\<close>

record LatencyArbConfig =
  la_venues :: "Venue list"
  la_base_min_profit_bps :: real
  la_min_profit_decay_rate :: real
  la_enable_global_best :: bool
  la_max_slippage_bps :: real
  la_max_orderbook_staleness_ms :: int
  la_position_size_usd :: real
  la_max_concurrent_arbs :: int
  la_max_execution_latency_us :: real

definition LatencyArbConfig_init :: LatencyArbConfig where
  "LatencyArbConfig_init = \<lparr> la_venues = [BINANCE, KRAKEN, COINBASE],
     la_base_min_profit_bps = 15, la_min_profit_decay_rate = 7 / 10,
     la_enable_global_best = True, la_max_slippage_bps = 8,
     la_max_orderbook_staleness_ms = 50, la_position_size_usd = 2000,
     la_max_concurrent_arbs = 3, la_max_execution_latency_us = 200 \<rparr>"

record EnhancedArbOpportunity =
  opp_symbol :: string
  opp_buy_venue :: Venue
  opp_sell_venue :: Venue
  opp_buy_price :: real
  opp_sell_price :: real
  opp_gross_profit_bps :: real
  opp_fees_bps :: real
  opp_slippage_bps :: real
  opp_net_profit_bps :: real
  opp_expected_profit_usd :: real
  opp_execute_quantity :: real
  opp_buy_liquidity_available :: real
  opp_sell_liquidity_available :: real
  opp_detection_latency_us :: int
  opp_orderbook_age_ms :: int
  opp_is_valid :: bool
  opp_reject_reason :: string

definition EnhancedArbOpportunity_init :: EnhancedArbOpportunity where
  "EnhancedArbOpportunity_init = \<lparr> opp_symbol = [], opp_buy_venue = UNKNOWN,
     opp_sell_venue = UNKNOWN, opp_buy_price = 0, opp_sell_price = 0, opp_gross_profit_bps = 0,
     opp_fees_bps = 0, opp_slippage_bps = 0, opp_net_profit_bps = 0,
     opp_expected_profit_usd = 0, opp_execute_quantity = 0, opp_buy_liquidity_available = 0,
     opp_sell_liquidity_available = 0, opp_detection_latency_us = 0, opp_orderbook_age_ms = 0,
     opp_is_valid = False, opp_reject_reason = [] \<rparr>"

record LatencyArbOptimized =
  la_config :: LatencyArbConfig
  active_arbs :: int
  opportunities_last_minute :: int
  last_opportunity_time :: TimePoint

definition LatencyArbOptimized_init :: "LatencyArbConfig \<Rightarrow> TimePoint \<Rightarrow> LatencyArbOptimized" where
  "LatencyArbOptimized_init config now =
     \<lparr> la_config = config, active_arbs = 0, opportunities_last_minute = 0,
       last_opportunity_time = now \<rparr>"

text \<open>\<open>std::numeric_limits<double>::max()\<close>.\<close>

definition DBL_MAX :: real where
  "DBL_MAX = (2 ^ 53 - 1) * 2 ^ 971"

text \<open>
  The first loop: the venue with the lowest positive best ask, its price and the quantity
  of its first ask level.  \<open>books\<close> is the map of books in iteration order.
\<close>

definition best_buy_step :: "Venue \<times> real \<times> real \<Rightarrow> Venue \<times> OrderBook \<Rightarrow> Venue \<times> real \<times> real" where
  "best_buy_step best entry =
     (case (best, entry) of
        ((best_buy_venue, best_buy_price, best_buy_liquidity), (venue, book)) \<Rightarrow>
          (let ask = get_best_ask book
           in if ask > 0 \<and> ask < best_buy_price
              then (venue, ask,
                    (case asks book of [] \<Rightarrow> best_buy_liquidity | (price, qty) # rest \<Rightarrow> qty))
              else (best_buy_venue, best_buy_price, best_buy_liquidity)))"

definition find_best_buy :: "(Venue \<times> OrderBook) list \<Rightarrow> Venue \<times> real \<times> real" where
  "find_best_buy books = foldl best_buy_step (UNKNOWN, DBL_MAX, 0) books"

text \<open>The second loop: the venue with the highest best bid.\<close>

definition best_sell_step :: "Venue \<times> real \<times> real \<Rightarrow> Venue \<times> OrderBook \<Rightarrow> Venue \<times> real \<times> real" where
  "best_sell_step best entry =
     (case (best, entry) of
        ((best_sell_venue, best_sell_price, best_sell_liquidity), (venue, book)) \<Rightarrow>
          (let bid = get_best_bid book
           in if bid > best_sell_price
              then (venue, bid,
                    (case bids book of [] \<Rightarrow> best_sell_liquidity | (price, qty) # rest \<Rightarrow> qty))
              else (best_sell_venue, best_sell_price, best_sell_liquidity)))"

definition find_best_sell :: "(Venue \<times> OrderBook) list \<Rightarrow> Venue \<times> real \<times> real" where
  "find_best_sell books = foldl best_sell_step (UNKNOWN, 0, 0) books"

text \<open>The loop of \<open>estimate_slippage\<close>: the value filled while walking the levels.\<close>

fun walk_levels :: "(real \<times> real) list \<Rightarrow> real \<Rightarrow> real \<Rightarrow> real" where
  "walk_levels [] total_value remaining_qty = total_value"
| "walk_levels ((price, level_qty) # rest) total_value remaining_qty =
     (let fill_qty = min remaining_qty level_qty;
          total_value' = total_value + fill_qty * price;
          remaining_qty' = remaining_qty - fill_qty
      in if remaining_qty' \<le> 0 then total_value'
         else walk_levels rest total_value' remaining_qty')"

definition estimate_slippage :: "OrderBook \<Rightarrow> real \<Rightarrow> Side \<Rightarrow> real" where
  "estimate_slippage book quantity side =
     (let levels = (if side = BUY then asks book else bids book);
          total_value = walk_levels levels 0 quantity
      in if total_value = 0 then 0
         else let vwap = total_value / quantity;
                  best_price = (if side = BUY then get_best_ask book else get_best_bid book)
              in \<bar>vwap - best_price\<bar> / best_price)"

definition get_fee_bps :: "Venue \<Rightarrow> real" where
  "get_fee_bps venue =
     (case venue of BINANCE \<Rightarrow> 10 | KRAKEN \<Rightarrow> 16 | COINBASE \<Rightarrow> 40 | _ \<Rightarrow> 20)"

definition get_dynamic_threshold :: "LatencyArbOptimized \<Rightarrow> TimePoint \<Rightarrow> real" where
  "get_dynamic_threshold st now =
     (let seconds_since_last = duration_cast ns_per_s (now - last_opportunity_time st)
      in if seconds_since_last > 60
         then la_base_min_profit_bps (la_config st) * la_min_profit_decay_rate (la_config st)
         else la_base_min_profit_bps (la_config st))"

text \<open>
  The total slippage in basis points of the two legs, computed when both books are found
  (\<open>None\<close> when one of the two lookups fails and the estimate is skipped).
\<close>

definition slippage_bps_of ::
    "LatencyArbConfig \<Rightarrow> (Venue \<times> OrderBook) list \<Rightarrow> Venue \<Rightarrow> Venue \<Rightarrow> real \<Rightarrow> real option" where
  "slippage_bps_of cfg books best_buy_venue best_sell_venue best_buy_price =
     (case (map_of books best_buy_venue, map_of books best_sell_venue) of
        (Some buy_book, Some sell_book) \<Rightarrow>
          (let target_qty = la_position_size_usd cfg / best_buy_price;
               buy_slippage = estimate_slippage buy_book target_qty BUY;
               sell_slippage = estimate_slippage sell_book target_qty SELL
           in Some ((buy_slippage + sell_slippage) * 10000))
      | _ \<Rightarrow> None)"

text \<open>
  The freshness loop over the two chosen venues: \<open>max_age\<close> starts at 0 and a venue
  without a timestamp is passed over.
\<close>

definition max_orderbook_age :: "(Venue \<rightharpoonup> TimePoint) \<Rightarrow> TimePoint \<Rightarrow> Venue list \<Rightarrow> int" where
  "max_orderbook_age timestamps now venues =
     foldl (\<lambda>max_age venue.
              case timestamps venue of
                None \<Rightarrow> max_age
              | Some ts \<Rightarrow> max max_age (duration_cast ns_per_ms (now - ts)))
           0 venues"

text \<open>
  \<open>detect_global_best_opportunity\<close>.  The four clock readings of the call are
  \<open>start\<close>, \<open>now\<close>, the reading \<open>now_thr\<close> inside \<open>get_dynamic_threshold\<close> and
  \<open>finish\<close>.  The result is the optional opportunity and the updated strategy.
\<close>

definition detect_global_best_opportunity ::
    "LatencyArbOptimized \<Rightarrow> string \<Rightarrow> (Venue \<times> OrderBook) list \<Rightarrow> (Venue \<rightharpoonup> TimePoint) \<Rightarrow>
     TimePoint \<Rightarrow> TimePoint \<Rightarrow> TimePoint \<Rightarrow> TimePoint \<Rightarrow>
     EnhancedArbOpportunity option \<times> LatencyArbOptimized" where
  "detect_global_best_opportunity st symbol books timestamps start now now_thr finish =
    (let cfg = la_config st in
     if active_arbs st \<ge> la_max_concurrent_arbs cfg then (None, st)
     else
     case (find_best_buy books, find_best_sell books) of
       ((best_buy_venue, best_buy_price, best_buy_liquidity),
        (best_sell_venue, best_sell_price, best_sell_liquidity)) \<Rightarrow>
     if best_buy_venue = UNKNOWN \<or> best_sell_venue = UNKNOWN \<or> best_buy_venue = best_sell_venue
     then (None, st)
     else
     let opp = EnhancedArbOpportunity_init\<lparr>
                 opp_symbol := symbol, opp_buy_venue := best_buy_venue,
                 opp_sell_venue := best_sell_venue, opp_buy_price := best_buy_price,
                 opp_sell_price := best_sell_price,
                 opp_buy_liquidity_available := best_buy_liquidity,
                 opp_sell_liquidity_available := best_sell_liquidity,
                 opp_gross_profit_bps :=
                   ((best_sell_price - best_buy_price) / best_buy_price) * 10000,
                 opp_fees_bps := get_fee_bps best_buy_venue + get_fee_bps best_sell_venue \<rparr>;
         slippage = slippage_bps_of cfg books best_buy_venue best_sell_venue best_buy_price;
         opp1 = (case slippage of None \<Rightarrow> opp | Some bps \<Rightarrow> opp\<lparr> opp_slippage_bps := bps \<rparr>)
     in
     if (case slippage of None \<Rightarrow> False | Some bps \<Rightarrow> bps > la_max_slippage_bps cfg)
     then (Some (opp1\<lparr> opp_reject_reason := ''Slippage too high'' \<rparr>), st)
     else
     let opp2 = opp1\<lparr> opp_net_profit_bps :=
                        opp_gross_profit_bps opp1 - opp_fees_bps opp1 - opp_slippage_bps opp1 \<rparr>;
         max_age = max_orderbook_age timestamps now [best_buy_venue, best_sell_venue];
         opp3 = opp2\<lparr> opp_orderbook_age_ms := max_age \<rparr>
     in
     if max_age > la_max_orderbook_staleness_ms cfg
     then (Some (opp3\<lparr> opp_reject_reason := ''Orderbook too stale'' \<rparr>), st)
     else
     let threshold = get_dynamic_threshold st now_thr in
     if opp_net_profit_bps opp3 < threshold
     then (Some (opp3\<lparr> opp_reject_reason := ''Net profit below threshold'' \<rparr>), st)
     else
     let max_qty = min best_buy_liquidity best_sell_liquidity;
         max_notional = max_qty * best_buy_price;
         target_notional = min (la_position_size_usd cfg) max_notional;
         opp4 = opp3\<lparr> opp_execute_quantity := target_notional / best_buy_price,
                       opp_expected_profit_usd :=
                         (opp_net_profit_bps opp3 / 10000) * target_notional,
                       opp_detection_latency_us := duration_cast ns_per_us (finish - start) \<rparr>
     in
     if real_of_int (opp_detection_latency_us opp4) > la_max_execution_latency_us cfg
     then (Some (opp4\<lparr> opp_reject_reason := ''Detection too slow'' \<rparr>), st)
     else (Some (opp4\<lparr> opp_is_valid := True \<rparr>),
           st\<lparr> opportunities_last_minute := int32 (opportunities_last_minute st + 1),
               last_opportunity_time := now \<rparr>))"

definition on_arbitrage_executed :: "LatencyArbOptimized \<Rightarrow> LatencyArbOptimized" where
  "on_arbitrage_executed st = st\<lparr> active_arbs := int32 (active_arbs st + 1) \<rparr>"

definition on_arbitrage_completed :: "LatencyArbOptimized \<Rightarrow> LatencyArbOptimized" where
  "on_arbitrage_completed st = st\<lparr> active_arbs := int32 (active_arbs st - 1) \<rparr>"

section \<open>strategies/latency\_arbitrage.hpp\<close>

record ArbConfig =
  arb_venues :: "Venue list"
  arb_min_profit_bps :: real
  arb_max_execution_latency_us :: real
  arb_position_size_usd :: real
  arb_max_concurrent_arbs :: int
  arb_fee_bps :: real




text \<open>
  The state of a \<open>LatencyArbitrageStrategy\<close>: the configuration, the counter of active
  arbitrages and the venue pairs computed by the constructor.  The statistics are
  written by \<open>record_arb_result\<close> only and are left out.
\<close>

record LatencyArbitrageStrategy =
  las_config :: ArbConfig
  las_active_arbs :: int
  las_venue_pairs :: "(Venue \<times> Venue) list"

text \<open>The double loop of the constructor: every pair of positions \<open>i < j\<close>.\<close>

fun venue_pairs_of :: "Venue list \<Rightarrow> (Venue \<times> Venue) list" where
  "venue_pairs_of [] = []"
| "venue_pairs_of (venue # rest) = map (\<lambda>other. (venue, other)) rest @ venue_pairs_of rest"

definition LatencyArbitrageStrategy_init :: "ArbConfig \<Rightarrow> LatencyArbitrageStrategy" where
  "LatencyArbitrageStrategy_init config =
     \<lparr> las_config = config, las_active_arbs = 0,
       las_venue_pairs = venue_pairs_of (arb_venues config) \<rparr>"





section \<open>Arithmetic on doubles with rounding\<close>

text \<open>
  IEEE binary64 with the default rounding: a double has 53 significant bits, the least
  exponent of a normal number is \<open>-1022\<close>, and below \<open>2^-1022\<close> the doubles are the
  multiples of \<open>2^-1074\<close>.  \<open>round_double x\<close> is the double nearest to \<open>x\<close>, the one
  with the even significand when \<open>x\<close> is half-way between two doubles.  Overflow to
  an infinity is not part of the embedding: the function is the rounding of the machine
  for results of magnitude below \<open>2^1024\<close>.
\<close>

definition round_half_even :: "real \<Rightarrow> int" where
  "round_half_even y =
     (let f = \<lfloor>y\<rfloor>; r = y - real_of_int f
      in if r < 1 / 2 then f else if r > 1 / 2 then f + 1 else if even f then f else f + 1)"

definition round_double :: "real \<Rightarrow> real" where
  "round_double x =
     (if x = 0 then 0
      else let e = max \<lfloor>log 2 \<bar>x\<bar>\<rfloor> (- 1022);
               q = 2 powi (e - 52)
           in q * real_of_int (round_half_even (x / q)))"

text \<open>The unit roundoff \<open>2^-53\<close> and the least positive normal double \<open>2^-1022\<close>.\<close>

definition unit_roundoff :: real where
  "unit_roundoff = 1 / 2 ^ 53"

definition min_normal :: real where
  "min_normal = 2 powi (- 1022)"

text \<open>The four operations of the machine on two doubles, and its square root.\<close>

definition dadd :: "real \<Rightarrow> real \<Rightarrow> real" where
  "dadd x y = round_double (x + y)"

definition dsub :: "real \<Rightarrow> real \<Rightarrow> real" where
  "dsub x y = round_double (x - y)"

definition dmul :: "real \<Rightarrow> real \<Rightarrow> real" where
  "dmul x y = round_double (x * y)"

definition ddiv :: "real \<Rightarrow> real \<Rightarrow> real" where
  "ddiv x y = round_double (x / y)"

definition dsqrt :: "real \<Rightarrow> real" where
  "dsqrt x = round_double (sqrt x)"

section \<open>strategies/pairs\_trading.hpp\<close>

text \<open>
  \<open>RunningStats\<close>: Welford's algorithm, with the removal of the oldest sample.  The
  counter is an \<open>int\<close>, converted to a double without rounding where it divides.
\<close>

record RunningStats =
  rs_count :: int
  rs_mean :: real
  rs_m2 :: real

definition RunningStats_init :: RunningStats where
  "RunningStats_init = \<lparr> rs_count = 0, rs_mean = 0, rs_m2 = 0 \<rparr>"

definition RunningStats_push :: "real \<Rightarrow> RunningStats \<Rightarrow> RunningStats" where
  "RunningStats_push x rs =
     (let count = int32 (rs_count rs + 1);
          delta = dsub x (rs_mean rs);
          mean = dadd (rs_mean rs) (ddiv delta (real_of_int count));
          delta2 = dsub x mean
      in \<lparr> rs_count = count, rs_mean = mean, rs_m2 = dadd (rs_m2 rs) (dmul delta delta2) \<rparr>)"

definition RunningStats_pop_front :: "real \<Rightarrow> RunningStats \<Rightarrow> RunningStats" where
  "RunningStats_pop_front x rs =
     (if rs_count rs = 0 then rs
      else let count = int32 (rs_count rs - 1) in
           if count = 0 then \<lparr> rs_count = count, rs_mean = 0, rs_m2 = 0 \<rparr>
           else let delta = dsub x (rs_mean rs);
                    mean = dsub (rs_mean rs) (ddiv delta (real_of_int count));
                    delta2 = dsub x mean
                in \<lparr> rs_count = count, rs_mean = mean,
                     rs_m2 = dsub (rs_m2 rs) (dmul delta delta2) \<rparr>)"

definition variance :: "RunningStats \<Rightarrow> real" where
  "variance rs =
     (if rs_count rs > 1 then ddiv (rs_m2 rs) (real_of_int (int32 (rs_count rs - 1))) else 0)"

definition stddev :: "RunningStats \<Rightarrow> real" where
  "stddev rs = dsqrt (variance rs)"

record PairsConfig =
  pairs_symbol1 :: string
  pairs_symbol2 :: string
  pairs_lookback_period :: int
  pairs_entry_z_score :: real
  pairs_exit_z_score :: real
  pairs_stop_loss_z_score :: real
  pairs_position_size_usd :: real
  pairs_min_correlation :: real

definition PairsConfig_init :: PairsConfig where
  "PairsConfig_init = \<lparr> pairs_symbol1 = ''ETHUSDT'', pairs_symbol2 = ''BTCUSDT'',
     pairs_lookback_period = 200, pairs_entry_z_score = 2,
     pairs_exit_z_score = round_double (3 / 10),
     pairs_stop_loss_z_score = 7 / 2, pairs_position_size_usd = 5000,
     pairs_min_correlation = 3 / 4 \<rparr>"



text \<open>
  The part of a \<open>PairsTradingStrategy\<close> that \<open>update_prices\<close>, \<open>generate_signal\<close> and
  \<open>create_pair_orders\<close> work on: the configuration, the ring of ratios, the accumulator
  and the two cached statistics.  The two price histories are never written by the
  class, and the trade statistics are separate.
\<close>

record PairsTradingStrategy =
  pairs_config :: PairsConfig
  ratio_history :: "real CircularBuffer"
  stats_calculator :: RunningStats
  mean_ratio :: real
  std_ratio :: real

text \<open>
  The constructor.  The ring is built with \<open>lookback_period\<close> converted to \<open>size_t\<close>:
  a capacity of 0 throws, and a negative period converts to a size that cannot be
  allocated, which throws as well.  \<open>slot\<close> is the content of the fresh ring slots.
\<close>

definition PairsTradingStrategy_init :: "PairsConfig \<Rightarrow> real \<Rightarrow> PairsTradingStrategy option" where
  "PairsTradingStrategy_init cfg slot =
     (if pairs_lookback_period cfg \<le> 0 then None
      else case CircularBuffer_init (nat (pairs_lookback_period cfg)) slot of
             None \<Rightarrow> None
           | Some ring \<Rightarrow>
               Some \<lparr> pairs_config = cfg, ratio_history = ring,
                      stats_calculator = RunningStats_init, mean_ratio = 0, std_ratio = 0 \<rparr>)"

text \<open>\<open>update_prices\<close>; the result is \<open>None\<close> if \<open>front()\<close> throws.\<close>

definition update_prices :: "real \<Rightarrow> real \<Rightarrow> PairsTradingStrategy \<Rightarrow> PairsTradingStrategy option" where
  "update_prices price1 price2 st =
     (let ratio = ddiv price1 price2;
          popped =
            (if full (ratio_history st) then
               (case front (ratio_history st) of
                  None \<Rightarrow> None
                | Some old_ratio \<Rightarrow> Some (RunningStats_pop_front old_ratio (stats_calculator st)))
             else Some (stats_calculator st))
      in case popped of
           None \<Rightarrow> None
         | Some stats1 \<Rightarrow>
             (let ring = push_back ratio (ratio_history st);
                  stats2 = RunningStats_push ratio stats1;
                  st2 = st\<lparr> ratio_history := ring, stats_calculator := stats2 \<rparr>
              in if rs_count stats2 \<ge> 20
                 then Some (st2\<lparr> mean_ratio := rs_mean stats2, std_ratio := stddev stats2 \<rparr>)
                 else Some st2))"

text \<open>A sequence of \<open>update_prices\<close> calls, oldest first.\<close>

fun update_prices_all :: "(real \<times> real) list \<Rightarrow> PairsTradingStrategy \<Rightarrow> PairsTradingStrategy option" where
  "update_prices_all [] st = Some st"
| "update_prices_all ((price1, price2) # rest) st =
     (case update_prices price1 price2 st of
        None \<Rightarrow> None
      | Some st' \<Rightarrow> update_prices_all rest st')"



text \<open>
  The batch definition of the specification: the arithmetic mean of a list of samples,
  and the ratios that a sequence of price pairs leaves in a window of \<open>L\<close> samples.  The
  ratios are the quotients as the machine computes them; their mean is the exact one.
\<close>

definition batch_mean :: "real list \<Rightarrow> real" where
  "batch_mean xs = sum_list xs / real (length xs)"

definition last_ratios :: "nat \<Rightarrow> (real \<times> real) list \<Rightarrow> real list" where
  "last_ratios L prices =
     drop (length prices - L) (map (\<lambda>(price1, price2). ddiv price1 price2) prices)"

section \<open>strategies/volatility\_arbitrage.hpp\<close>

record VolArbConfig =
  va_atr_period :: int
  va_high_vol_multiplier :: real
  va_low_vol_multiplier :: real
  va_high_vol_entry_threshold :: real
  va_low_vol_entry_threshold :: real
  va_target_profit_bps :: real
  va_stop_loss_bps :: real
  va_position_size_usd :: real
  va_max_hold_minutes :: int





text \<open>
  The state of a \<open>VolatilityArbitrageStrategy\<close>: the configuration, the two rings and
  the two cached ranges.  The trade statistics are written by \<open>record_trade_result\<close>
  only and are left out.
\<close>

record VolatilityArbitrageStrategy =
  vas_config :: VolArbConfig
  price_history :: "real CircularBuffer"
  atr_history :: "real CircularBuffer"
  current_atr :: real
  avg_atr :: real












section \<open>strategies/adverse\_selection\_filter.hpp\<close>

record AdverseFilterConfig =
  af_lookback_trades :: int
  af_toxic_threshold :: real
  af_spread_multiplier_low :: real
  af_spread_multiplier_medium :: real
  af_spread_multiplier_high :: real
  af_price_movement_window_ms :: int
  af_significant_price_move_bps :: real


record ToxicityMetrics =
  toxicity_score :: real
  toxicity_level :: string
  recommended_spread_mult :: real
  fill_adverse_ratio :: real
  avg_adverse_move_bps :: real
  trade_size_percentile :: real
  time_since_last_toxic_fill_ms :: real

definition ToxicityMetrics_init :: ToxicityMetrics where
  "ToxicityMetrics_init = \<lparr> toxicity_score = 0, toxicity_level = ''LOW'',
     recommended_spread_mult = 1, fill_adverse_ratio = 0, avg_adverse_move_bps = 0,
     trade_size_percentile = 1 / 2, time_since_last_toxic_fill_ms = 10000 \<rparr>"

record FillEvent =
  fe_our_side :: Side
  fe_fill_price :: real
  fe_fill_quantity :: real
  fe_fill_time :: TimePoint
  fe_price_after_500ms :: real
  fe_was_adverse :: bool
  fe_adverse_move_bps :: real

definition FillEvent_init :: FillEvent where
  "FillEvent_init = \<lparr> fe_our_side = BUY, fe_fill_price = 0, fe_fill_quantity = 0,
     fe_fill_time = 0, fe_price_after_500ms = 0, fe_was_adverse = False,
     fe_adverse_move_bps = 0 \<rparr>"

record AdverseSelectionFilter =
  af_config :: AdverseFilterConfig
  fill_history :: "FillEvent CircularBuffer"
  last_toxic_fill_time :: TimePoint
  cached_toxicity_score :: real
  cached_spread_mult :: real
  needs_recalc :: bool

text \<open>
  The constructor; as for the pairs strategy, a lookback that is not positive makes the
  construction of the ring throw.
\<close>

definition AdverseSelectionFilter_init :: "AdverseFilterConfig \<Rightarrow> AdverseSelectionFilter option" where
  "AdverseSelectionFilter_init config =
     (if af_lookback_trades config \<le> 0 then None
      else case CircularBuffer_init (nat (af_lookback_trades config)) FillEvent_init of
             None \<Rightarrow> None
           | Some ring \<Rightarrow>
               Some \<lparr> af_config = config, fill_history = ring, last_toxic_fill_time = 0,
                      cached_toxicity_score = 0, cached_spread_mult = 1, needs_recalc = True \<rparr>)"

definition record_fill :: "TimePoint \<Rightarrow> Side \<Rightarrow> real \<Rightarrow> real \<Rightarrow> AdverseSelectionFilter \<Rightarrow>
    AdverseSelectionFilter" where
  "record_fill now our_side price quantity f =
     (let fill = FillEvent_init\<lparr> fe_our_side := our_side, fe_fill_price := price,
                                 fe_fill_quantity := quantity, fe_fill_time := now \<rparr>
      in f\<lparr> fill_history := push_back fill (fill_history f), needs_recalc := True \<rparr>)"



text \<open>
  The counting loop of \<open>calculate_toxicity\<close>: the number of analyzed fills, the number
  of adverse ones and the sum of their absolute moves.
\<close>

definition count_adverse :: "FillEvent list \<Rightarrow> int \<times> int \<times> real" where
  "count_adverse fills =
     foldl (\<lambda>(analyzed_fills, adverse_count, total_adverse_move) fill.
              if fe_price_after_500ms fill > 0 then
                (if fe_was_adverse fill
                 then (analyzed_fills + 1, adverse_count + 1,
                       total_adverse_move + \<bar>fe_adverse_move_bps fill\<bar>)
                 else (analyzed_fills + 1, adverse_count, total_adverse_move))
              else (analyzed_fills, adverse_count, total_adverse_move))
           (0, 0, 0) fills"

definition calculate_toxicity :: "TimePoint \<Rightarrow> AdverseSelectionFilter \<Rightarrow>
    ToxicityMetrics \<times> AdverseSelectionFilter" where
  "calculate_toxicity now f =
     (if \<not> needs_recalc f then
        (ToxicityMetrics_init\<lparr> toxicity_score := cached_toxicity_score f,
                                recommended_spread_mult := cached_spread_mult f \<rparr>, f)
      else
      let (analyzed_fills, adverse_count, total_adverse_move) =
            count_adverse (elements (fill_history f));
          ratio = (if analyzed_fills > 0
                   then real_of_int adverse_count / real_of_int analyzed_fills
                   else fill_adverse_ratio ToxicityMetrics_init);
          avg_move = (if adverse_count > 0 then total_adverse_move / real_of_int adverse_count
                      else avg_adverse_move_bps ToxicityMetrics_init);
          since = (if last_toxic_fill_time f \<noteq> 0
                   then real_of_int (duration_cast ns_per_ms (now - last_toxic_fill_time f))
                   else time_since_last_toxic_fill_ms ToxicityMetrics_init);
          ratio_component = ratio;
          magnitude_component = min (avg_move / 20) 1;
          recency_component = max 0 (1 - since / 10000);
          score = ratio_component * (5 / 10) + magnitude_component * (3 / 10)
                    + recency_component * (2 / 10);
          metrics = ToxicityMetrics_init\<lparr> fill_adverse_ratio := ratio,
                      avg_adverse_move_bps := avg_move,
                      time_since_last_toxic_fill_ms := since, toxicity_score := score \<rparr>;
          metrics' =
            (if score < 3 / 10 then
               metrics\<lparr> toxicity_level := ''LOW'',
                        recommended_spread_mult := af_spread_multiplier_low (af_config f) \<rparr>
             else if score < 6 / 10 then
               metrics\<lparr> toxicity_level := ''MEDIUM'',
                        recommended_spread_mult := af_spread_multiplier_medium (af_config f) \<rparr>
             else
               metrics\<lparr> toxicity_level := ''HIGH'',
                        recommended_spread_mult := af_spread_multiplier_high (af_config f) \<rparr>)
      in (metrics',
          f\<lparr> cached_toxicity_score := score,
              cached_spread_mult := recommended_spread_mult metrics',
              needs_recalc := False \<rparr>))"

definition should_widen_spreads :: "TimePoint \<Rightarrow> AdverseSelectionFilter \<Rightarrow>
    bool \<times> AdverseSelectionFilter" where
  "should_widen_spreads now f =
     (let (metrics, f') = calculate_toxicity now f
      in (toxicity_score metrics > af_toxic_threshold (af_config f), f'))"

section \<open>strategies/strategy\_coordinator.hpp\<close>

record CoordinatorConfig =
  enable_obi :: bool
  enable_latency_arb :: bool
  enable_pairs :: bool
  enable_adverse_filter :: bool
  enable_vol_arb :: bool
  cc_obi_config :: OBIConfig
  cc_latency_arb_config :: ArbConfig
  cc_pairs_config :: PairsConfig
  cc_adverse_filter_config :: AdverseFilterConfig
  cc_vol_arb_config :: VolArbConfig
  max_total_positions :: int
  max_total_notional :: real


text \<open>
  The state of a \<open>StrategyCoordinator\<close>.  A \<open>unique_ptr\<close> is an option, \<open>None\<close> when it
  is null; the imbalance strategy is its configuration, since its statistics play no
  part here; the map of pairs strategies is iterated over, the map of volatility
  strategies is searched; \<open>risk_manager\<close> is the manager that the reference designates.
\<close>

record StrategyCoordinator =
  coord_config :: CoordinatorConfig
  risk_manager :: RiskManager
  obi_strategy :: "OBIConfig option"
  latency_arb_strategy :: "LatencyArbitrageStrategy option"
  pairs_strategies :: "(string \<times> PairsTradingStrategy) list"
  adverse_filter :: "AdverseSelectionFilter option"
  vol_arb_strategies :: "string \<rightharpoonup> VolatilityArbitrageStrategy"










text \<open>\<open>on_fill\<close> of the coordinator, which records the fill in the filter.\<close>

definition coordinator_on_fill :: "TimePoint \<Rightarrow> Fill \<Rightarrow> StrategyCoordinator \<Rightarrow> StrategyCoordinator" where
  "coordinator_on_fill now fill c =
     (case adverse_filter c of
        None \<Rightarrow> c
      | Some f \<Rightarrow>
          if enable_adverse_filter (coord_config c)
          then c\<lparr> adverse_filter :=
                   Some (record_fill now (fill_side fill) (fill_price fill) (fill_quantity fill) f) \<rparr>
          else c)"

section \<open>Invariants used in the proofs\<close>

text \<open>
  A well-formed ring: the array has the declared capacity, the indices are in range and
  the write position is \<open>size_\<close> slots after the oldest element.
\<close>

definition ring_ok :: "'a CircularBuffer \<Rightarrow> bool" where
  "ring_ok b \<longleftrightarrow> 0 < buf_capacity b \<and> length (buf_data b) = buf_capacity b \<and>
     buf_size b \<le> buf_capacity b \<and> buf_tail b < buf_capacity b \<and>
     buf_head b = (buf_tail b + buf_size b) mod buf_capacity b"

text \<open>
  The accumulator describes the samples \<open>xs\<close>, all of magnitude at most \<open>M\<close>: it
  counts them and its mean is within \<open>E\<close> of their arithmetic mean.
\<close>

definition mean_close :: "real \<Rightarrow> real \<Rightarrow> RunningStats \<Rightarrow> real list \<Rightarrow> bool" where
  "mean_close M E rs xs \<longleftrightarrow> rs_count rs = int (length xs) \<and> (\<forall>x \<in> set xs. \<bar>x\<bar> \<le> M) \<and>
     \<bar>rs_mean rs - batch_mean xs\<bar> \<le> E"

text \<open>
  The distance that \<open>n\<close> calls of \<open>update_prices\<close> can put between the two means when
  no ratio exceeds \<open>M\<close> in magnitude: each call multiplies \<open>M\<close> plus the distance by at
  most \<open>1 + 88 u\<close>, where \<open>u\<close> is the unit roundoff.
\<close>

definition welford_error :: "real \<Rightarrow> nat \<Rightarrow> real" where
  "welford_error M n = M * ((1 + 88 * unit_roundoff) ^ n - 1)"

text \<open>The last \<open>L\<close> elements of a list.\<close>

definition window :: "nat \<Rightarrow> 'a list \<Rightarrow> 'a list" where
  "window L xs = drop (length xs - L) xs"

text \<open>The ring of a pairs strategy has capacity \<open>L\<close> and the accumulator describes it.\<close>

definition pairs_ok :: "nat \<Rightarrow> real \<Rightarrow> real \<Rightarrow> PairsTradingStrategy \<Rightarrow> bool" where
  "pairs_ok L M E st \<longleftrightarrow> ring_ok (ratio_history st) \<and> buf_capacity (ratio_history st) = L \<and>
     mean_close M E (stats_calculator st) (elements (ratio_history st))"

text \<open>
  The index invariant of the tracker: a tracked client id is in the active set exactly
  when the stored order is active.
\<close>

definition active_index_ok :: "OrderTracker \<Rightarrow> bool" where
  "active_index_ok t \<longleftrightarrow>
     (\<forall>(client_id, order) \<in> set (ot_orders t).
        client_id \<in> ot_active_orders t \<longleftrightarrow> is_active order)"

text \<open>
  A well-formed tracker: every order is stored once, under its own client id, the index
  invariant holds and every active id is tracked.
\<close>

definition tracker_ok :: "OrderTracker \<Rightarrow> bool" where
  "tracker_ok t \<longleftrightarrow> distinct (map fst (ot_orders t)) \<and>
     (\<forall>(client_id, order) \<in> set (ot_orders t). ord_client_order_id order = client_id) \<and>
     active_index_ok t \<and> ot_active_orders t \<subseteq> fst ` set (ot_orders t)"

section \<open>Scenarios\<close>

text \<open>The concrete states and inputs at which the properties below are evaluated.\<close>

subsection \<open>Scenarios of the risk manager\<close>

text \<open>A fill built from \<open>Fill()\<close> by assigning the fields that \<open>on_fill\<close> reads.\<close>

definition fill_of :: "string \<Rightarrow> Side \<Rightarrow> real \<Rightarrow> real \<Rightarrow> real \<Rightarrow> Fill" where
  "fill_of symbol side price quantity fee =
     Fill_init\<lparr> fill_symbol := symbol, fill_side := side, fill_price := price,
                fill_quantity := quantity, fill_fee := fee \<rparr>"

text \<open>A manager with the default limits and no position.\<close>

definition rm_empty :: RiskManager where
  "rm_empty = RiskManager_init RiskLimits_init"

text \<open>A long position of 1 BTC entered at 50 000, and a manager holding only it.\<close>

definition btc_long :: Position where
  "btc_long = (Position_init 0)\<lparr> pos_symbol := ''BTC'', pos_quantity := 1,
                                   pos_avg_price := 50000 \<rparr>"

definition rm_long_btc :: RiskManager where
  "rm_long_btc = rm_empty\<lparr> positions := [(''BTC'', btc_long)] \<rparr>"

text \<open>A manager with the default loss cap of 5 000 whose day has realized \<open>-5001\<close>.\<close>

definition rm_breach :: RiskManager where
  "rm_breach = rm_empty\<lparr> daily_realized_pnl := - 5001 \<rparr>"

text \<open>
  Two symbols: A is bought at 100 and marked at 110; B is bought at 100 and sold at 150;
  the last mark carries a price for B only.
\<close>

definition rm_two_symbols :: RiskManager where
  "rm_two_symbols =
     update_market_prices [''B'' \<mapsto> 150]
       (on_fill 4 (fill_of ''B'' SELL 150 1 0)
         (on_fill 3 (fill_of ''B'' BUY 100 1 0)
           (update_market_prices [''A'' \<mapsto> 110]
             (on_fill 1 (fill_of ''A'' BUY 100 1 0) rm_empty))))"

subsection \<open>Scenarios of the pairs strategy\<close>

text \<open>
  A strategy with a window of two ratios.  Three price updates with the ratios \<open>10^16\<close>,
  1 and 3, and three with the ratios 1, 2 and 3.
\<close>

definition pairs_cfg2 :: PairsConfig where
  "pairs_cfg2 = PairsConfig_init\<lparr> pairs_lookback_period := 2 \<rparr>"

definition pairs_st0 :: PairsTradingStrategy where
  "pairs_st0 = \<lparr> pairs_config = pairs_cfg2,
     ratio_history = \<lparr> buf_data = [0, 0], buf_capacity = 2, buf_size = 0, buf_head = 0,
                       buf_tail = 0 \<rparr>,
     stats_calculator = RunningStats_init, mean_ratio = 0, std_ratio = 0 \<rparr>"

definition pairs_prices_large :: "(real \<times> real) list" where
  "pairs_prices_large = [(10000000000000000, 1), (1, 1), (3, 1)]"

definition pairs_prices3 :: "(real \<times> real) list" where
  "pairs_prices3 = [(1, 1), (4, 2), (9, 3)]"

subsection \<open>Scenario of the circuit breaker\<close>

text \<open>The configuration of the cycle: three failures trip, two successes close, 30 s.\<close>

definition cycle_config :: CircuitBreakerConfig where
  "cycle_config = CircuitBreakerConfig_init\<lparr> failure_threshold := 3, success_threshold := 2,
                                             timeout := 30 \<rparr>"

subsection \<open>Scenario of the imbalance strategy\<close>

text \<open>
  A threshold of 0.5 and a book with 30 on the bid and 10 on the ask: the imbalance is
  20/40, exactly the threshold.
\<close>

definition obi_cfg_half :: OBIConfig where
  "obi_cfg_half = OBIConfig_init\<lparr> obi_imbalance_threshold := 1 / 2 \<rparr>"

definition book_30_10 :: OrderBook where
  "book_30_10 = \<lparr> bids = [(100, 30)], asks = [(101, 10)] \<rparr>"

text \<open>A book with 100 on the bid and 40 on the ask, in two levels each.\<close>

definition book_100_40 :: OrderBook where
  "book_100_40 = \<lparr> bids = [(9995 / 100, 60), (9990 / 100, 40)],
                    asks = [(10005 / 100, 25), (10010 / 100, 15)] \<rparr>"

subsection \<open>Scenario of the latency arbitrage\<close>

text \<open>
  Two venues 10 basis points apart: the best ask on BINANCE is 100 and the best bid on
  KRAKEN is 100.1, each with enough quantity for the position.  The BINANCE book was
  updated 120 ms before the detection at 1 s, the KRAKEN book 10 ms before; the
  staleness limit is the default of 50 ms.
\<close>

definition arb_books :: "(Venue \<times> OrderBook) list" where
  "arb_books =
     [(BINANCE, \<lparr> bids = [(999 / 10, 1000)], asks = [(100, 1000)] \<rparr>),
      (KRAKEN, \<lparr> bids = [(1001 / 10, 1000)], asks = [(1002 / 10, 1000)] \<rparr>)]"

definition arb_timestamps :: "Venue \<rightharpoonup> TimePoint" where
  "arb_timestamps = [BINANCE \<mapsto> 880000000, KRAKEN \<mapsto> 990000000]"

definition arb_strategy :: LatencyArbOptimized where
  "arb_strategy = LatencyArbOptimized_init LatencyArbConfig_init 0"

subsection \<open>Scenario of the adverse-selection filter and of the coordinator\<close>






subsection \<open>Scenario of the order tracker\<close>

text \<open>An acknowledged order, and the same client id in its filled state.\<close>

definition order_new :: Order where
  "order_new = Order_init\<lparr> ord_order_id := ''X1'', ord_client_order_id := ''C1'',
                            ord_symbol := ''BTCUSDT'', ord_quantity := 1, ord_status := NEW \<rparr>"

definition order_filled :: Order where
  "order_filled = order_new\<lparr> ord_filled_quantity := 1, ord_status := FILLED,
                             ord_completed_time := 5 \<rparr>"

section \<open>Properties of the risk manager\<close>

lemmas risk_defs = on_fill_def fill_of_def Fill_init_def Position_init_def RiskManager_init_def
  RiskLimits_init_def rm_empty_def find_position_def is_flat_def is_long_def is_short_def Let_def

lemmas mark_defs = update_market_prices_def update_unrealized_def calculate_unrealized_def
  get_stats_def sum_unrealized_def

lemma last_pushed: "last (if length (xs @ [x]) > 1000 then tl (xs @ [x]) else xs @ [x]) = x"
  by (cases xs) (auto simp: last_tl)

lemma find_put_entry [simp]: "find_position (put_entry s p ps) s = Some p"
  by (induction ps) (auto simp: find_position_def)

lemma foldl_add_sum_list:
  "foldl (\<lambda>u (s, p). u + f p) a ps = a + sum_list (map (\<lambda>(s, p). f p) ps)" for a :: real
  by (induction ps arbitrary: a) auto

text \<open>
  The closing branch of \<open>on_fill\<close>: a fill against a position that is neither flat nor on
  the side of the fill leaves the average price of the position as it was, also when the
  fill is larger than the position.
\<close>

lemma on_fill_closing_keeps_avg_price:
  assumes "find_position (positions rm) (fill_symbol fill) = Some pos"
    and "\<not> is_flat pos"
    and "\<not> ((is_long pos \<and> fill_side fill = BUY) \<or> (is_short pos \<and> fill_side fill = SELL))"
  shows "\<exists>pos'. find_position (positions (on_fill now fill rm)) (fill_symbol fill) = Some pos'
           \<and> pos_avg_price pos' = pos_avg_price pos
           \<and> pos_quantity pos' = pos_quantity pos
                + (if fill_side fill = BUY then fill_quantity fill else - fill_quantity fill)"
  using assms by (auto simp: on_fill_def Let_def)

text \<open>
  C1.  A position of +1 BTC at 50 000 receives a SELL of 1.5 BTC at 60 000 with fee 10.
  The realized P&L grows by 9 990 and the position becomes \<open>-0.5\<close> BTC, as the claim
  says, but the closing branch of \<open>on_fill\<close> never assigns \<open>avg_price\<close>: the residual
  short position keeps the entry price 50 000 of the closed long one instead of the fill
  price 60 000.
\<close>

theorem on_fill_flip_keeps_old_avg_price:
  "find_position (positions (on_fill now (fill_of ''BTC'' SELL 60000 (3 / 2) 10) rm_long_btc)) ''BTC''
     = Some (btc_long\<lparr> pos_realized_pnl := 9990, pos_quantity := - (1 / 2),
                       pos_total_fees_paid := 10, pos_last_update_time := now \<rparr>)
   \<and> daily_realized_pnl (on_fill now (fill_of ''BTC'' SELL 60000 (3 / 2) 10) rm_long_btc)
       = daily_realized_pnl rm_long_btc + 9990
   \<and> pos_avg_price (btc_long\<lparr> pos_realized_pnl := 9990, pos_quantity := - (1 / 2),
                       pos_total_fees_paid := 10, pos_last_update_time := now \<rparr>) = 50000
   \<and> fill_price (fill_of ''BTC'' SELL 60000 (3 / 2) 10) = 60000"
  by (simp add: risk_defs rm_long_btc_def btc_long_def)

text \<open>
  C2.  The daily-loss check is the first check of \<open>check_order\<close>: whenever the daily
  realized P&L plus the unrealized P&L of all positions is below \<open>-max_daily_loss\<close>, the
  result is the rejection "Daily loss limit exceeded", whatever the order, the reference
  price, the peak and the other limits are.
\<close>

theorem check_order_daily_loss:
  assumes "daily_realized_pnl rm + sum_unrealized (positions rm) < - max_daily_loss (limits rm)"
  shows "check_order rm order current_price
           = \<lparr> passed = False, reason = ''Daily loss limit exceeded'' \<rparr>"
  using assms by (simp add: check_order_def get_total_pnl_internal_def)

theorem check_order_daily_loss_witness:
  "daily_realized_pnl rm_breach + sum_unrealized (positions rm_breach)
     < - max_daily_loss (limits rm_breach)
   \<and> max_daily_loss (limits rm_breach) = 5000
   \<and> check_order rm_breach Order_init 100
       = \<lparr> passed = False, reason = ''Daily loss limit exceeded'' \<rparr>"
proof -
  have h: "daily_realized_pnl rm_breach + sum_unrealized (positions rm_breach)
             < - max_daily_loss (limits rm_breach)"
    by (simp add: rm_breach_def rm_empty_def RiskManager_init_def RiskLimits_init_def
          sum_unrealized_def)
  show ?thesis using h check_order_daily_loss [OF h, of Order_init 100]
    by (simp add: rm_breach_def rm_empty_def RiskManager_init_def RiskLimits_init_def)
qed

text \<open>
  C3, as stated, fails: \<open>on_fill\<close> has no validation.  A BUY fill with price \<open>-100\<close>
  and quantity \<open>-1\<close> on a manager without positions creates a position of \<open>-1\<close> at
  \<open>-100\<close> and is stored in the recent fills.
\<close>

theorem on_fill_negative_counterexample:
  "fill_price (fill_of ''BTC'' BUY (- 100) (- 1) 0) < 0
   \<and> fill_quantity (fill_of ''BTC'' BUY (- 100) (- 1) 0) < 0
   \<and> find_position (positions rm_empty) ''BTC'' = None
   \<and> find_position (positions (on_fill 7 (fill_of ''BTC'' BUY (- 100) (- 1) 0) rm_empty)) ''BTC''
       = Some ((Position_init 7)\<lparr> pos_symbol := ''BTC'', pos_quantity := - 1,
                 pos_avg_price := - 100, pos_opened_time := 0 \<rparr>)
   \<and> recent_fills rm_empty = []
   \<and> recent_fills (on_fill 7 (fill_of ''BTC'' BUY (- 100) (- 1) 0) rm_empty)
       = [fill_of ''BTC'' BUY (- 100) (- 1) 0]"
  by (simp add: risk_defs)

text \<open>
  C3, amended.  \<open>on_fill\<close> applies every fill, without looking at the sign of its price or
  quantity: the fill becomes the newest recent fill, the symbol has a position afterwards
  whose last update is this call, and a fill for a symbol without a position opens a
  position with the signed quantity and the price of the fill.
\<close>

theorem on_fill_applies_unvalidated:
  "recent_fills (on_fill now fill rm) \<noteq> []
   \<and> last (recent_fills (on_fill now fill rm)) = fill
   \<and> (\<exists>pos. find_position (positions (on_fill now fill rm)) (fill_symbol fill) = Some pos
            \<and> pos_last_update_time pos = now)
   \<and> (find_position (positions rm) (fill_symbol fill) = None \<longrightarrow>
        find_position (positions (on_fill now fill rm)) (fill_symbol fill)
          = Some ((Position_init now)\<lparr> pos_symbol := fill_symbol fill,
                    pos_quantity := (if fill_side fill = BUY then fill_quantity fill
                                     else - fill_quantity fill),
                    pos_avg_price := fill_price fill,
                    pos_opened_time := fill_received_time fill,
                    pos_total_fees_paid := fill_fee fill \<rparr>))"
proof -
  have 1: "recent_fills (on_fill now fill rm) \<noteq> []"
    by (cases "recent_fills rm") (auto simp: on_fill_def Let_def)
  have 2: "last (recent_fills (on_fill now fill rm)) = fill"
    using last_pushed [of "recent_fills rm" fill] by (simp add: on_fill_def Let_def)
  have 3: "\<exists>pos. find_position (positions (on_fill now fill rm)) (fill_symbol fill) = Some pos
             \<and> pos_last_update_time pos = now"
    by (simp add: on_fill_def Let_def)
  have 4: "find_position (positions rm) (fill_symbol fill) = None \<longrightarrow>
        find_position (positions (on_fill now fill rm)) (fill_symbol fill)
          = Some ((Position_init now)\<lparr> pos_symbol := fill_symbol fill,
                    pos_quantity := (if fill_side fill = BUY then fill_quantity fill
                                     else - fill_quantity fill),
                    pos_avg_price := fill_price fill,
                    pos_opened_time := fill_received_time fill,
                    pos_total_fees_paid := fill_fee fill \<rparr>)"
    by (simp add: on_fill_def Let_def is_flat_def Position_init_def)
  show ?thesis using 1 2 3 4 by blast
qed

theorem on_fill_applies_unvalidated_witness:
  "find_position (positions rm_empty) (fill_symbol (fill_of ''BTC'' SELL (- 100) (- 2) 1)) = None
   \<and> fill_price (fill_of ''BTC'' SELL (- 100) (- 2) 1) < 0
   \<and> fill_quantity (fill_of ''BTC'' SELL (- 100) (- 2) 1) < 0
   \<and> find_position (positions (on_fill 7 (fill_of ''BTC'' SELL (- 100) (- 2) 1) rm_empty)) ''BTC''
       = Some ((Position_init 7)\<lparr> pos_symbol := ''BTC'', pos_quantity := 2,
                 pos_avg_price := - 100, pos_opened_time := 0, pos_total_fees_paid := 1 \<rparr>)
   \<and> last (recent_fills (on_fill 7 (fill_of ''BTC'' SELL (- 100) (- 2) 1) rm_empty))
       = fill_of ''BTC'' SELL (- 100) (- 2) 1"
proof -
  have h: "find_position (positions rm_empty) (fill_symbol (fill_of ''BTC'' SELL (- 100) (- 2) 1))
             = None"
    by (simp add: rm_empty_def RiskManager_init_def find_position_def)
  show ?thesis
    using h on_fill_applies_unvalidated [of 7 "fill_of ''BTC'' SELL (- 100) (- 2) 1" rm_empty]
    by (simp add: fill_of_def Fill_init_def)
qed

text \<open>
  C4.  The claim fails on the code through an omission in \<open>update_market_prices\<close>:
  its loop adds to the total only the positions that have a price in the call, while
  \<open>get_stats\<close> and \<open>get_total_pnl_internal\<close> add up all of them.  A is bought at 100
  and marked at 110; B is bought at 100 and sold at 150; the last mark carries a price
  for B only.  That call sets the peak to 50, the total P&L that \<open>get_stats\<close> reports
  right after it is 60, and the reported drawdown from the peak is negative.
\<close>

theorem update_market_prices_peak_below_total:
  "peak_pnl_today (get_stats rm_two_symbols) = 50
   \<and> total_pnl (get_stats rm_two_symbols) = 60
   \<and> drawdown_from_peak (get_stats rm_two_symbols) = - 10"
  by (simp add: rm_two_symbols_def risk_defs mark_defs)

lemma mark_positions_all_priced:
  "\<forall>(s, p) \<in> set ps. prices s \<noteq> None \<Longrightarrow>
     snd (mark_positions prices ps t) = t + sum_unrealized (fst (mark_positions prices ps t))"
  unfolding sum_unrealized_def foldl_add_sum_list
  by (induction ps arbitrary: t)
     (auto simp: update_unrealized_def split_beta Let_def split: option.splits)

text \<open>
  The omission is the only way in which a mark can leave the peak below the total: when
  the prices of the call cover every position, the total of the loop is the total of
  \<open>get_stats\<close>, the peak becomes the maximum of the previous peak and that total, and so
  it is at least the total.
\<close>

lemma update_market_prices_all_priced:
  assumes "\<forall>(symbol, pos) \<in> set (positions rm). prices symbol \<noteq> None"
  shows "total_pnl (get_stats (update_market_prices prices rm))
           \<le> peak_pnl_today (get_stats (update_market_prices prices rm))
       \<and> peak_daily_pnl (update_market_prices prices rm)
           = max (peak_daily_pnl rm) (total_pnl (get_stats (update_market_prices prices rm)))"
  using mark_positions_all_priced [OF assms, of 0]
  by (auto simp: get_stats_def update_market_prices_def Let_def split_beta)

text \<open>The peak is written by \<open>update_market_prices\<close> only: a fill leaves it as it is.\<close>

lemma on_fill_keeps_peak: "peak_daily_pnl (on_fill now fill rm) = peak_daily_pnl rm"
  by (simp add: on_fill_def Let_def)

section \<open>Properties of the circuit breaker\<close>

lemma duration_cast_seconds_ge:
  assumes "k * ns_per_s \<le> d" "0 \<le> k"
  shows "k \<le> duration_cast ns_per_s d"
proof -
  have d: "0 \<le> d" using assms by (simp add: ns_per_s_def)
  have "k = (k * ns_per_s) div ns_per_s" by (simp add: ns_per_s_def)
  also have "\<dots> \<le> d div ns_per_s" using assms(1) by (intro zdiv_mono1) (simp_all add: ns_per_s_def)
  finally have "k \<le> d div ns_per_s" .
  then show ?thesis using d assms(2) by (cases "d = 0") (auto simp: duration_cast_def sgn_if)
qed

lemmas cb_defs = record_failure_def record_success_def allow_request_def open_breaker_def
  int32_def Let_def

text \<open>
  C10.  A closed breaker without recorded failures or successes, with failure threshold 3,
  success threshold 2 and a timeout of 30 s: three failures (at any instants) open it and
  record the instant of the third; an \<open>allow_request\<close> at least 30 s later returns true
  and moves it to HALF\_OPEN; the first success leaves it there and the second closes it.
\<close>

theorem breaker_cycle:
  assumes "cb_state cb = CLOSED" "failure_count cb = 0" "success_count cb = 0"
    and "failure_threshold (cb_config cb) = 3" "success_threshold (cb_config cb) = 2"
    and "timeout (cb_config cb) = 30"
    and "30 * ns_per_s \<le> now - t3"
  shows "cb_state (record_failure t3 (record_failure t2 (record_failure t1 cb))) = OPEN
    \<and> last_failure_time (record_failure t3 (record_failure t2 (record_failure t1 cb))) = t3
    \<and> fst (allow_request now (record_failure t3 (record_failure t2 (record_failure t1 cb)))) = True
    \<and> cb_state (snd (allow_request now (record_failure t3 (record_failure t2 (record_failure t1 cb))))) = HALF_OPEN
    \<and> cb_state (record_success (snd (allow_request now (record_failure t3 (record_failure t2 (record_failure t1 cb)))))) = HALF_OPEN
    \<and> cb_state (record_success (record_success (snd (allow_request now (record_failure t3 (record_failure t2 (record_failure t1 cb))))))) = CLOSED"
proof -
  let ?cb3 = "record_failure t3 (record_failure t2 (record_failure t1 cb))"
  have cb3: "?cb3 = cb\<lparr> failure_count := 3, cb_state := OPEN, last_failure_time := t3 \<rparr>"
    using assms(1-4) by (simp add: cb_defs)
  have el: "30 \<le> duration_cast ns_per_s (now - t3)"
    using duration_cast_seconds_ge [of 30 "now - t3"] assms(7) by simp
  have ar: "allow_request now ?cb3 = (True, cb\<lparr> failure_count := 3, cb_state := HALF_OPEN, last_failure_time := t3, half_open_start := now \<rparr>)"
    using el assms(6) by (simp add: cb3 allow_request_def Let_def)
  show ?thesis using assms(3,5)
    by (simp add: ar) (simp add: cb3 record_success_def int32_def Let_def)
qed

theorem breaker_cycle_witness:
  "cb_state (CircuitBreaker_init ''venue'' cycle_config 0 0) = CLOSED
   \<and> 30 * ns_per_s \<le> 30000000003 - 3
   \<and> cb_state (record_failure 3 (record_failure 2 (record_failure 1
         (CircuitBreaker_init ''venue'' cycle_config 0 0)))) = OPEN
   \<and> fst (allow_request 30000000003 (record_failure 3 (record_failure 2 (record_failure 1
         (CircuitBreaker_init ''venue'' cycle_config 0 0))))) = True
   \<and> cb_state (snd (allow_request 30000000003 (record_failure 3 (record_failure 2
         (record_failure 1 (CircuitBreaker_init ''venue'' cycle_config 0 0)))))) = HALF_OPEN
   \<and> cb_state (record_success (record_success (snd (allow_request 30000000003
         (record_failure 3 (record_failure 2 (record_failure 1
           (CircuitBreaker_init ''venue'' cycle_config 0 0)))))))) = CLOSED"
proof -
  let ?cb = "CircuitBreaker_init ''venue'' cycle_config 0 0"
  have h: "cb_state ?cb = CLOSED" "failure_count ?cb = 0" "success_count ?cb = 0"
    "failure_threshold (cb_config ?cb) = 3" "success_threshold (cb_config ?cb) = 2"
    "timeout (cb_config ?cb) = 30"
    by (simp_all add: CircuitBreaker_init_def cycle_config_def CircuitBreakerConfig_init_def)
  have t: "30 * ns_per_s \<le> 30000000003 - 3"
    by (simp add: ns_per_s_def)
  show ?thesis
    using h(1) t breaker_cycle [OF h t, of 2 1] by simp
qed

section \<open>Properties of the order tracker\<close>

text \<open>
  What the operations do preserve: \<open>update_order\<close> keeps the index invariant for every
  input, and a well-formed tracker stays well-formed under \<open>track_order\<close> of a client id
  that is not tracked yet, under \<open>update_order\<close> with a replacement that carries the
  client id it is stored under, and under both cleanups.
\<close>

lemma key_in_iff: "k \<in> fst ` set xs \<longleftrightarrow> (\<exists>v. (k, v) \<in> set xs)"
  by force

lemma keys_put_entry: "fst ` set (put_entry k v xs) = insert k (fst ` set xs)"
proof (induction xs)
  case Nil
  then show ?case by simp
next
  case (Cons a xs)
  obtain k' v' where a: "a = (k', v')" by (cases a)
  show ?case using Cons by (cases "k' = k") (auto simp: a)
qed

lemma set_put_entry:
  "distinct (map fst xs) \<Longrightarrow>
     set (put_entry k v xs) = insert (k, v) {(k', v'). (k', v') \<in> set xs \<and> k' \<noteq> k}"
proof (induction xs)
  case Nil
  then show ?case by simp
next
  case (Cons a xs)
  obtain k' v' where a: "a = (k', v')" by (cases a)
  show ?case using Cons by (cases "k' = k") (auto simp: a key_in_iff)
qed

lemma distinct_put_entry:
  "distinct (map fst xs) \<Longrightarrow> distinct (map fst (put_entry k v xs))"
  by (induction xs) (auto simp: keys_put_entry)

lemma set_erase_entry: "set (erase_entry k xs) = {(k', v'). (k', v') \<in> set xs \<and> k' \<noteq> k}"
  by (auto simp: erase_entry_def)

lemma keys_erase_entry: "fst ` set (erase_entry k xs) = fst ` set xs - {k}"
  by (force simp: erase_entry_def)

lemma distinct_erase_entry:
  "distinct (map fst xs) \<Longrightarrow> distinct (map fst (erase_entry k xs))"
  by (simp add: erase_entry_def distinct_map_filter)

text \<open>\<open>update_order\<close> keeps the index invariant, whatever it is given.\<close>

lemma update_order_preserves_index:
  assumes "active_index_ok t" "distinct (map fst (ot_orders t))"
  shows "active_index_ok (update_order client_order_id updated t)"
proof (cases "map_of (ot_orders t) client_order_id")
  case None
  then show ?thesis using assms by (simp add: update_order_def)
next
  case (Some stored)
  then have "(client_order_id, stored) \<in> set (ot_orders t)" by (rule map_of_SomeD)
  then have m: "client_order_id \<in> ot_active_orders t \<longleftrightarrow> is_active stored"
    using assms(1) by (auto simp: active_index_ok_def)
  show ?thesis
    using assms m Some
    by (auto simp: update_order_def active_index_ok_def set_put_entry)
qed

lemma update_order_preserves:
  assumes "tracker_ok t" "ord_client_order_id updated = client_order_id"
  shows "tracker_ok (update_order client_order_id updated t)"
proof (cases "map_of (ot_orders t) client_order_id")
  case None
  then show ?thesis using assms by (simp add: update_order_def)
next
  case (Some stored)
  let ?t' = "update_order client_order_id updated t"
  have d: "distinct (map fst (ot_orders t))" and a: "active_index_ok t"
    and f: "\<forall>(client_id, order) \<in> set (ot_orders t). ord_client_order_id order = client_id"
    and s: "ot_active_orders t \<subseteq> fst ` set (ot_orders t)"
    using assms(1) by (simp_all add: tracker_ok_def)
  have k: "client_order_id \<in> fst ` set (ot_orders t)"
    using Some by (metis map_of_SomeD fst_conv image_eqI)
  have o: "ot_orders ?t' = put_entry client_order_id updated (ot_orders t)"
    using Some by (simp add: update_order_def)
  have 1: "distinct (map fst (ot_orders ?t'))"
    unfolding o using d by (rule distinct_put_entry)
  have 2: "\<forall>(client_id, order) \<in> set (ot_orders ?t'). ord_client_order_id order = client_id"
    unfolding o using f assms(2) by (auto simp: set_put_entry [OF d])
  have 3: "active_index_ok ?t'"
    using update_order_preserves_index [OF a d] .
  have 4: "ot_active_orders ?t' \<subseteq> fst ` set (ot_orders ?t')"
    unfolding o keys_put_entry using s k Some by (auto simp: update_order_def)
  show ?thesis unfolding tracker_ok_def using 1 2 3 4 by blast
qed

text \<open>Dropping an order from the map and from the indices, under its key.\<close>

lemma drop_order_preserves:
  assumes "tracker_ok t"
  shows "tracker_ok ((remove_from_indices oid k smb t)
                       \<lparr> ot_orders := erase_entry k (ot_orders t) \<rparr>)"
proof -
  let ?t' = "(remove_from_indices oid k smb t)\<lparr> ot_orders := erase_entry k (ot_orders t) \<rparr>"
  have d: "distinct (map fst (ot_orders t))" and a: "active_index_ok t"
    and f: "\<forall>(client_id, order) \<in> set (ot_orders t). ord_client_order_id order = client_id"
    and s: "ot_active_orders t \<subseteq> fst ` set (ot_orders t)"
    using assms(1) by (simp_all add: tracker_ok_def)
  have o: "ot_orders ?t' = erase_entry k (ot_orders t)"
    and act: "ot_active_orders ?t' = ot_active_orders t - {k}"
    by (simp_all add: remove_from_indices_def)
  have 1: "distinct (map fst (ot_orders ?t'))"
    unfolding o using d by (rule distinct_erase_entry)
  have 2: "\<forall>(client_id, order) \<in> set (ot_orders ?t'). ord_client_order_id order = client_id"
    unfolding o using f by (auto simp: set_erase_entry)
  have 3: "active_index_ok ?t'"
    unfolding active_index_ok_def o act using a
    by (auto simp: set_erase_entry active_index_ok_def)
  have 4: "ot_active_orders ?t' \<subseteq> fst ` set (ot_orders ?t')"
    unfolding o act keys_erase_entry using s by blast
  show ?thesis unfolding tracker_ok_def using 1 2 3 4 by blast
qed

lemma drop_order_keys:
  "fst ` set (ot_orders ((remove_from_indices oid k smb t)
                           \<lparr> ot_orders := erase_entry k (ot_orders t) \<rparr>))
     \<subseteq> fst ` set (ot_orders t)"
  by (simp add: keys_erase_entry)

lemma cleanup_oldest_internal_preserves:
  assumes "tracker_ok t"
  shows "tracker_ok (cleanup_oldest_internal n t)
       \<and> fst ` set (ot_orders (cleanup_oldest_internal n t)) \<subseteq> fst ` set (ot_orders t)"
proof -
  let ?step = "\<lambda>t (client_id, completed :: TimePoint).
                  case map_of (ot_orders t) client_id of
                    None \<Rightarrow> t
                  | Some order \<Rightarrow>
                      (remove_from_indices (ord_order_id order) client_id (ord_symbol order) t)
                        \<lparr> ot_orders := erase_entry client_id (ot_orders t) \<rparr>"
  have "tracker_ok t \<Longrightarrow> tracker_ok (foldl ?step t ids)
          \<and> fst ` set (ot_orders (foldl ?step t ids)) \<subseteq> fst ` set (ot_orders t)" for ids t
  proof (induction ids arbitrary: t)
    case Nil
    then show ?case by simp
  next
    case (Cons a ids)
    obtain client_id completed where a: "a = (client_id, completed)" by (cases a)
    show ?case
    proof (cases "map_of (ot_orders t) client_id")
      case None
      then show ?thesis using Cons a by simp
    next
      case (Some order)
      let ?t1 = "(remove_from_indices (ord_order_id order) client_id (ord_symbol order) t)
                   \<lparr> ot_orders := erase_entry client_id (ot_orders t) \<rparr>"
      have 1: "tracker_ok ?t1" using drop_order_preserves [OF Cons.prems] .
      have 3: "fst ` set (ot_orders ?t1) \<subseteq> fst ` set (ot_orders t)" using drop_order_keys .
      have s: "foldl ?step t (a # ids) = foldl ?step ?t1 ids" using Some a by simp
      from Cons.IH [OF 1] 3 show ?thesis unfolding s by blast
    qed
  qed
  then show ?thesis using assms unfolding cleanup_oldest_internal_def Let_def by blast
qed

lemma track_order_fresh_preserves:
  assumes "tracker_ok t" "ord_client_order_id order \<notin> fst ` set (ot_orders t)"
  shows "tracker_ok (track_order order t)"
proof -
  define t1 where
    "t1 = (if length (ot_orders t) \<ge> MAX_ORDERS then cleanup_oldest_internal 1000 t else t)"
  have 1: "tracker_ok t1" "fst ` set (ot_orders t1) \<subseteq> fst ` set (ot_orders t)"
    using cleanup_oldest_internal_preserves [OF assms(1), of 1000] assms(1)
    by (auto simp: t1_def)
  have fresh: "ord_client_order_id order \<notin> fst ` set (ot_orders t1)"
    using 1(2) assms(2) by blast
  have o: "ot_orders (track_order order t)
             = put_entry (ord_client_order_id order) order (ot_orders t1)"
    and a: "ot_active_orders (track_order order t)
             = (if is_active order then insert (ord_client_order_id order) (ot_active_orders t1)
                else ot_active_orders t1)"
    by (simp_all add: track_order_def t1_def Let_def)
  have d: "distinct (map fst (ot_orders t1))" and ai: "active_index_ok t1"
    and f: "\<forall>(client_id, order) \<in> set (ot_orders t1). ord_client_order_id order = client_id"
    and s: "ot_active_orders t1 \<subseteq> fst ` set (ot_orders t1)"
    using 1(1) by (simp_all add: tracker_ok_def)
  have na: "ord_client_order_id order \<notin> ot_active_orders t1"
    using s fresh by blast
  have p1: "distinct (map fst (ot_orders (track_order order t)))"
    unfolding o using d by (rule distinct_put_entry)
  have p2: "\<forall>(client_id, order) \<in> set (ot_orders (track_order order t)).
              ord_client_order_id order = client_id"
    unfolding o using f by (auto simp: set_put_entry [OF d])
  have p3: "active_index_ok (track_order order t)"
    unfolding active_index_ok_def o a using ai na
    by (auto simp: set_put_entry [OF d] active_index_ok_def)
  have p4: "ot_active_orders (track_order order t) \<subseteq> fst ` set (ot_orders (track_order order t))"
    unfolding o a keys_put_entry using s by auto
  show ?thesis unfolding tracker_ok_def using p1 p2 p3 p4 by blast
qed

lemma cleanup_scan_preserves:
  assumes "tracker_ok t" "\<forall>(key, order) \<in> set snapshot. ord_client_order_id order = key"
  shows "tracker_ok (fst (cleanup_scan now retention snapshot t removed))"
  using assms
proof (induction snapshot arbitrary: t removed)
  case Nil
  then show ?case by simp
next
  case (Cons a snapshot)
  obtain key order where a: "a = (key, order)" by (cases a)
  have k: "ord_client_order_id order = key" using Cons.prems(2) a by simp
  have rest: "\<forall>(key, order) \<in> set snapshot. ord_client_order_id order = key"
    using Cons.prems(2) by simp
  show ?case
    using Cons.IH [OF drop_order_preserves [OF Cons.prems(1)] rest]
      Cons.IH [OF Cons.prems(1) rest] a k
    by simp
qed

lemma cleanup_completed_preserves:
  assumes "tracker_ok t"
  shows "tracker_ok (fst (cleanup_completed now retention t))"
proof -
  have "\<forall>(key, order) \<in> set (ot_orders t). ord_client_order_id order = key"
    using assms by (simp add: tracker_ok_def)
  then show ?thesis
    unfolding cleanup_completed_def by (rule cleanup_scan_preserves [OF assms])
qed

lemma tracker_ok_init: "tracker_ok OrderTracker_init"
  by (simp add: tracker_ok_def active_index_ok_def OrderTracker_init_def)

lemmas ot_defs = track_order_def OrderTracker_init_def order_new_def order_filled_def
  Order_init_def is_active_def MAX_ORDERS_def Let_def

text \<open>
  C8.  \<open>track_order\<close> only ever adds to the active set.  Tracking an active order and
  then tracking the same client id again in a completed state overwrites the stored order
  and leaves the client id in the active set: the tracker then holds a FILLED order whose
  client id is active.
\<close>

theorem track_order_keeps_stale_active_id:
  "ot_orders (track_order order_new OrderTracker_init) = [(''C1'', order_new)]
   \<and> ot_active_orders (track_order order_new OrderTracker_init) = {''C1''}
   \<and> is_active order_new
   \<and> ot_orders (track_order order_filled (track_order order_new OrderTracker_init))
       = [(''C1'', order_filled)]
   \<and> ord_status order_filled = FILLED
   \<and> \<not> is_active order_filled
   \<and> ''C1'' \<in> ot_active_orders
                 (track_order order_filled (track_order order_new OrderTracker_init))"
  by (simp add: ot_defs)

section \<open>Properties of the order-book imbalance strategy\<close>

lemma sum_levels_take:
  "sum_levels n levels count volume
     = volume + sum_list (map snd (take (nat (n - count)) levels))"
proof (induction levels arbitrary: count volume)
  case Nil
  then show ?case by simp
next
  case (Cons l levels)
  obtain price qty where l: "l = (price, qty)" by (cases l)
  show ?case
  proof (cases "count \<ge> n")
    case True
    then show ?thesis by (simp add: l)
  next
    case False
    then have "nat (n - count) = Suc (nat (n - (count + 1)))" by simp
    then show ?thesis using False Cons.IH [of "count + 1" "volume + qty"] by (simp add: l)
  qed
qed

lemma sum_levels_top_volume: "sum_levels n levels 0 0 = top_volume n levels"
  by (simp add: sum_levels_take top_volume_def)

text \<open>
  C5, as stated, fails at the boundary.  With a threshold of 0.5 and volumes 30 and 10 the
  imbalance is exactly 0.5: the guard \<open>abs_imbalance < threshold\<close> lets it pass, but
  both branches compare strictly, so the signal returned is not valid.
\<close>

theorem analyze_counterexample:
  "top_volume (obi_num_levels obi_cfg_half) (bids book_30_10) = 30
   \<and> top_volume (obi_num_levels obi_cfg_half) (asks book_30_10) = 10
   \<and> obi_min_volume_threshold obi_cfg_half \<le> 30 + 10
   \<and> imbalance_of 30 10 = 1 / 2
   \<and> \<bar>imbalance_of 30 10\<bar> \<ge> obi_imbalance_threshold obi_cfg_half
   \<and> obi_imbalance_ratio (analyze obi_cfg_half 0 ''BTCUSDT'' book_30_10) = 1 / 2
   \<and> \<not> obi_is_valid (analyze obi_cfg_half 0 ''BTCUSDT'' book_30_10)"
  by (simp add: analyze_def obi_cfg_half_def OBIConfig_init_def book_30_10_def OBISignal_init_def
        top_volume_def imbalance_of_def Let_def)

text \<open>
  C5, amended.  For a non-negative threshold and a positive total volume of the top \<open>N\<close>
  levels that reaches the minimum volume, \<open>analyze\<close> reports the imbalance
  \<open>I = (v_b - v_a) / (v_b + v_a)\<close> and returns a valid signal exactly when
  \<open>|I|\<close> is strictly above the threshold, with side BUY if \<open>I > 0\<close> and SELL
  otherwise; for \<open>v_b = v_a\<close> the imbalance is 0 and the signal is not valid.
\<close>

theorem analyze_signal:
  assumes "v_b = top_volume (obi_num_levels cfg) (bids book)"
    and "v_a = top_volume (obi_num_levels cfg) (asks book)"
    and "obi_min_volume_threshold cfg \<le> v_b + v_a"
    and "0 < v_b + v_a"
    and "0 \<le> obi_imbalance_threshold cfg"
  shows "obi_imbalance_ratio (analyze cfg now symbol book) = imbalance_of v_b v_a
    \<and> (obi_is_valid (analyze cfg now symbol book)
         \<longleftrightarrow> \<bar>imbalance_of v_b v_a\<bar> > obi_imbalance_threshold cfg)
    \<and> (obi_is_valid (analyze cfg now symbol book) \<and> imbalance_of v_b v_a > 0
         \<longrightarrow> obi_predicted_direction (analyze cfg now symbol book) = BUY)
    \<and> (obi_is_valid (analyze cfg now symbol book) \<and> \<not> imbalance_of v_b v_a > 0
         \<longrightarrow> obi_predicted_direction (analyze cfg now symbol book) = SELL)
    \<and> (v_b = v_a \<longrightarrow> imbalance_of v_b v_a = 0 \<and> \<not> obi_is_valid (analyze cfg now symbol book))"
proof -
  define Q where "Q = (v_b - v_a) / (v_b + v_a)"
  have vb: "sum_levels (obi_num_levels cfg) (bids book) 0 0 = v_b"
    and va: "sum_levels (obi_num_levels cfg) (asks book) 0 0 = v_a"
    using assms(1,2) by (simp_all add: sum_levels_top_volume)
  have enough: "\<not> v_b + v_a < obi_min_volume_threshold cfg"
    using assms(3) by simp
  have z: "v_b = v_a \<Longrightarrow> Q = 0"
    by (simp add: Q_def)
  show ?thesis
    unfolding analyze_def Let_def vb va imbalance_of_def Q_def [symmetric]
    using enough assms(5) z by (auto simp: OBISignal_init_def)
qed

theorem analyze_signal_witness:
  "top_volume (obi_num_levels (OBIConfig_init\<lparr> obi_imbalance_threshold := 3 / 10 \<rparr>))
       (bids book_100_40) = 100
   \<and> top_volume (obi_num_levels (OBIConfig_init\<lparr> obi_imbalance_threshold := 3 / 10 \<rparr>))
       (asks book_100_40) = 40
   \<and> obi_min_volume_threshold (OBIConfig_init\<lparr> obi_imbalance_threshold := 3 / 10 \<rparr>) \<le> 100 + 40
   \<and> obi_imbalance_ratio (analyze (OBIConfig_init\<lparr> obi_imbalance_threshold := 3 / 10 \<rparr>) 0
         ''BTCUSDT'' book_100_40) = 3 / 7
   \<and> obi_is_valid (analyze (OBIConfig_init\<lparr> obi_imbalance_threshold := 3 / 10 \<rparr>) 0
         ''BTCUSDT'' book_100_40)
   \<and> obi_predicted_direction (analyze (OBIConfig_init\<lparr> obi_imbalance_threshold := 3 / 10 \<rparr>) 0
         ''BTCUSDT'' book_100_40) = BUY"
proof -
  let ?cfg = "OBIConfig_init\<lparr> obi_imbalance_threshold := 3 / 10 \<rparr>"
  have h1: "(100::real) = top_volume (obi_num_levels ?cfg) (bids book_100_40)"
    by (simp add: top_volume_def OBIConfig_init_def book_100_40_def)
  have h2: "(40::real) = top_volume (obi_num_levels ?cfg) (asks book_100_40)"
    by (simp add: top_volume_def OBIConfig_init_def book_100_40_def)
  have h3: "obi_min_volume_threshold ?cfg \<le> 100 + 40"
    by (simp add: OBIConfig_init_def)
  have h4: "(0::real) < 100 + 40" by simp
  have h5: "0 \<le> obi_imbalance_threshold ?cfg" by simp
  have i: "imbalance_of 100 40 = 3 / 7" by (simp add: imbalance_of_def)
  show ?thesis
    using h1 [symmetric] h2 [symmetric] h3
      analyze_signal [OF h1 h2 h3 h4 h5, of 0 "''BTCUSDT''"]
    by (simp add: i)
qed

section \<open>Properties of the latency arbitrage\<close>

lemma below_DBL_MAX: "x \<le> 1000000 \<Longrightarrow> x < DBL_MAX"
proof -
  have "(1::real) \<le> 2 ^ 971" by simp
  moreover have "(1000000::real) < 2 ^ 53 - 1" by simp
  ultimately have "1000000 * 1 < (2 ^ 53 - 1) * (2::real) ^ 971"
    by (intro mult_less_le_imp_less) simp_all
  then have "1000000 < DBL_MAX" by (simp only: DBL_MAX_def mult_1_right)
  then show "x \<le> 1000000 \<Longrightarrow> x < DBL_MAX" by simp
qed

text \<open>The age computed by the freshness loop is at least the age of every chosen venue
  that has a timestamp.\<close>

lemma max_orderbook_age_ge:
  assumes "timestamps venue = Some ts" "venue \<in> set venues"
  shows "duration_cast ns_per_ms (now - ts) \<le> max_orderbook_age timestamps now venues"
proof -
  let ?step = "\<lambda>max_age venue. case timestamps venue of None \<Rightarrow> max_age
                 | Some ts \<Rightarrow> max max_age (duration_cast ns_per_ms (now - ts))"
  have mono: "m \<le> foldl ?step m vs" for m vs
    by (induction vs arbitrary: m)
       (auto split: option.splits intro: order_trans [OF max.cobounded1])
  have "venue \<in> set vs \<Longrightarrow> duration_cast ns_per_ms (now - ts) \<le> foldl ?step m vs" for m vs
  proof (induction vs arbitrary: m)
    case Nil then show ?case by simp
  next
    case (Cons v vs)
    show ?case
    proof (cases "v = venue")
      case True
      then show ?thesis
        using assms(1) mono [of "max m (duration_cast ns_per_ms (now - ts))" vs] by simp
    next
      case False
      then show ?thesis using Cons by (auto split: option.splits)
    qed
  qed
  then show ?thesis using assms(2) by (simp add: max_orderbook_age_def)
qed

text \<open>
  C9.  When the detection reaches its freshness step (the concurrency limit is not hit,
  the two loops chose two different known venues, and the estimated slippage is within
  its limit), it computes the maximum order-book age over the chosen buy and sell venues,
  stores it in the opportunity, and whenever that age exceeds
  \<open>max_orderbook_staleness_ms\<close> it returns the opportunity with \<open>is_valid = false\<close>
  and the reason "Orderbook too stale", leaving the strategy unchanged.
\<close>

theorem detect_rejects_stale:
  assumes "active_arbs st < la_max_concurrent_arbs (la_config st)"
    and "find_best_buy books = (buy_venue, buy_price, buy_liquidity)"
    and "find_best_sell books = (sell_venue, sell_price, sell_liquidity)"
    and "buy_venue \<noteq> UNKNOWN" "sell_venue \<noteq> UNKNOWN" "buy_venue \<noteq> sell_venue"
    and "slippage_bps_of (la_config st) books buy_venue sell_venue buy_price = Some bps"
    and "bps \<le> la_max_slippage_bps (la_config st)"
    and "max_orderbook_age timestamps now [buy_venue, sell_venue]
           > la_max_orderbook_staleness_ms (la_config st)"
  shows "\<exists>opp. detect_global_best_opportunity st symbol books timestamps start now now_thr finish
                 = (Some opp, st)
           \<and> opp_buy_venue opp = buy_venue \<and> opp_sell_venue opp = sell_venue
           \<and> opp_orderbook_age_ms opp = max_orderbook_age timestamps now [buy_venue, sell_venue]
           \<and> opp_is_valid opp = False
           \<and> opp_reject_reason opp = ''Orderbook too stale''"
  using assms
  by (simp add: detect_global_best_opportunity_def Let_def EnhancedArbOpportunity_init_def)

theorem detect_rejects_stale_witness:
  "find_best_buy arb_books = (BINANCE, 100, 1000)
   \<and> find_best_sell arb_books = (KRAKEN, 1001 / 10, 1000)
   \<and> slippage_bps_of (la_config arb_strategy) arb_books BINANCE KRAKEN 100 = Some 0
   \<and> arb_timestamps BINANCE = Some (1000000000 - 120 * ns_per_ms)
   \<and> max_orderbook_age arb_timestamps 1000000000 [BINANCE, KRAKEN] = 120
   \<and> la_max_orderbook_staleness_ms (la_config arb_strategy) = 50
   \<and> (\<exists>opp. detect_global_best_opportunity arb_strategy ''BTCUSD'' arb_books arb_timestamps
                999999000 1000000000 1000000001 1000000002 = (Some opp, arb_strategy)
          \<and> opp_orderbook_age_ms opp = 120
          \<and> opp_is_valid opp = False
          \<and> opp_reject_reason opp = ''Orderbook too stale'')"
proof -
  have cfg: "la_config arb_strategy = LatencyArbConfig_init"
    by (simp add: arb_strategy_def LatencyArbOptimized_init_def)
  have h1: "active_arbs arb_strategy < la_max_concurrent_arbs (la_config arb_strategy)"
    by (simp add: arb_strategy_def LatencyArbOptimized_init_def LatencyArbConfig_init_def)
  have h2: "find_best_buy arb_books = (BINANCE, 100, 1000)"
    using below_DBL_MAX [of 100]
    by (simp add: find_best_buy_def arb_books_def best_buy_step_def get_best_ask_def)
  have h3: "find_best_sell arb_books = (KRAKEN, 1001 / 10, 1000)"
    by (simp add: find_best_sell_def arb_books_def best_sell_step_def get_best_bid_def)
  have h4: "BINANCE \<noteq> UNKNOWN" and h5: "KRAKEN \<noteq> UNKNOWN" and h6: "BINANCE \<noteq> KRAKEN"
    by simp_all
  have h7: "slippage_bps_of (la_config arb_strategy) arb_books BINANCE KRAKEN 100 = Some 0"
    by (simp add: cfg slippage_bps_of_def arb_books_def LatencyArbConfig_init_def
          estimate_slippage_def get_best_ask_def get_best_bid_def Let_def)
  have h8: "0 \<le> la_max_slippage_bps (la_config arb_strategy)"
    by (simp add: cfg LatencyArbConfig_init_def)
  have age: "max_orderbook_age arb_timestamps 1000000000 [BINANCE, KRAKEN] = 120"
    by (simp add: max_orderbook_age_def arb_timestamps_def duration_cast_def ns_per_ms_def)
  have lim: "la_max_orderbook_staleness_ms (la_config arb_strategy) = 50"
    by (simp add: cfg LatencyArbConfig_init_def)
  have h9: "max_orderbook_age arb_timestamps 1000000000 [BINANCE, KRAKEN]
              > la_max_orderbook_staleness_ms (la_config arb_strategy)"
    by (simp add: age lim)
  have ts: "arb_timestamps BINANCE = Some (1000000000 - 120 * ns_per_ms)"
    by (simp add: arb_timestamps_def ns_per_ms_def)
  show ?thesis
    using h2 h3 h7 ts age lim
      detect_rejects_stale [OF h1 h2 h3 h4 h5 h6 h7 h8 h9,
        of "''BTCUSD''" 999999000 1000000001 1000000002]
    by (simp add: age) blast
qed

section \<open>Properties of the ring buffer and of the pairs strategy\<close>


lemma add_mod_inj_le:
  fixes t :: nat
  assumes "i \<le> j" "j < c" "(t + i) mod c = (t + j) mod c"
  shows "i = j"
proof -
  have "c dvd (t + j) - (t + i)"
    using assms mod_eq_dvd_iff_nat [of "t + i" "t + j" c] by simp
  then have "c dvd j - i" by simp
  moreover have "j - i < c" using assms by simp
  ultimately have "j - i = 0" using nat_dvd_not_less by (cases "j - i = 0") auto
  then show ?thesis using assms by simp
qed

lemma add_mod_inj:
  fixes t :: nat
  assumes "i < c" "j < c" "(t + i) mod c = (t + j) mod c"
  shows "i = j"
proof (cases "i \<le> j")
  case True then show ?thesis using assms add_mod_inj_le by blast
next
  case False
  then have "j \<le> i" by simp
  then show ?thesis using assms add_mod_inj_le [of j i c t] by simp
qed

lemma ring_ok_init: "CircularBuffer_init c d = Some b \<Longrightarrow> ring_ok b \<and> elements b = [] \<and> buf_capacity b = c"
  by (auto simp: CircularBuffer_init_def ring_ok_def elements_def split: if_splits)

lemma ring_ok_push_back: "ring_ok b \<Longrightarrow> ring_ok (push_back v b)"
  by (auto simp: ring_ok_def push_back_def Let_def mod_simps ac_simps)

lemma capacity_push_back [simp]: "buf_capacity (push_back v b) = buf_capacity b"
  by (simp add: push_back_def Let_def)

lemma length_elements [simp]: "length (elements b) = buf_size b"
  by (simp add: elements_def)

lemma elements_push_back_room:
  assumes "ring_ok b" "buf_size b < buf_capacity b"
  shows "elements (push_back v b) = elements b @ [v]"
proof (rule nth_equalityI)
  show "length (elements (push_back v b)) = length (elements b @ [v])"
    using assms by (simp add: push_back_def Let_def)
next
  fix i assume "i < length (elements (push_back v b))"
  then have i: "i \<le> buf_size b" using assms by (simp add: push_back_def Let_def)
  let ?c = "buf_capacity b"
  have hd: "buf_head b = (buf_tail b + buf_size b) mod ?c" "buf_head b < length (buf_data b)"
    using assms by (auto simp: ring_ok_def)
  show "elements (push_back v b) ! i = (elements b @ [v]) ! i"
  proof (cases "i = buf_size b")
    case True
    then show ?thesis using assms hd
      by (simp add: elements_def push_back_def Let_def nth_append)
  next
    case False
    then have lt: "i < buf_size b" using i by simp
    have "(buf_tail b + i) mod ?c \<noteq> buf_head b"
      using add_mod_inj [of i ?c "buf_size b" "buf_tail b"] lt assms hd by auto
    then show ?thesis using lt assms
      by (simp add: elements_def push_back_def Let_def nth_append)
  qed
qed

lemma elements_nth:
  "i < buf_size b \<Longrightarrow> elements b ! i = buf_data b ! ((buf_tail b + i) mod buf_capacity b)"
  by (simp add: elements_def)

lemma elements_push_back_full:
  assumes "ring_ok b" "buf_size b = buf_capacity b"
  shows "elements (push_back v b) = tl (elements b) @ [v]"
proof (rule nth_equalityI)
  show "length (elements (push_back v b)) = length (tl (elements b) @ [v])"
    using assms by (simp add: push_back_def Let_def ring_ok_def)
next
  fix i assume "i < length (elements (push_back v b))"
  then have i: "i < buf_capacity b" using assms by (simp add: push_back_def Let_def)
  let ?c = "buf_capacity b"
  let ?k = "(buf_tail b + (i + 1)) mod ?c"
  have hd: "buf_head b = buf_tail b" "buf_tail b < length (buf_data b)" "0 < ?c"
    "buf_tail b < ?c"
    using assms by (auto simp: ring_ok_def)
  have pb: "push_back v b = b\<lparr> buf_data := (buf_data b)[buf_tail b := v],
               buf_head := (buf_tail b + 1) mod ?c, buf_tail := (buf_tail b + 1) mod ?c \<rparr>"
    using assms hd by (simp add: push_back_def Let_def)
  have idx: "((buf_tail b + 1) mod ?c + i) mod ?c = ?k"
    by (simp add: mod_simps ac_simps)
  have L: "elements (push_back v b) ! i = (buf_data b)[buf_tail b := v] ! ?k"
    using i assms idx by (simp add: pb elements_nth)
  show "elements (push_back v b) ! i = (tl (elements b) @ [v]) ! i"
  proof (cases "i + 1 = ?c")
    case True
    then have k: "?k = buf_tail b" using hd by simp
    have "length (tl (elements b)) = i" using True assms by simp
    then have "(tl (elements b) @ [v]) ! i = v"
      by (simp add: nth_append)
    then show ?thesis using L k hd by simp
  next
    case False
    then have lt: "i + 1 < ?c" using i by simp
    have ne: "?k \<noteq> buf_tail b"
    proof
      assume "?k = buf_tail b"
      then have "(buf_tail b + (i + 1)) mod ?c = (buf_tail b + 0) mod ?c"
        using hd by simp
      then have "i + 1 = 0" using add_mod_inj [of "i + 1" ?c 0 "buf_tail b"] lt hd by blast
      then show False by simp
    qed
    have "i < length (tl (elements b))" using lt assms by simp
    then have "(tl (elements b) @ [v]) ! i = elements b ! (i + 1)"
      by (simp add: nth_append nth_tl)
    also have "\<dots> = buf_data b ! ?k" using lt assms by (simp add: elements_nth)
    finally show ?thesis using L ne by simp
  qed
qed

lemma front_elements: "ring_ok b \<Longrightarrow> buf_size b > 0 \<Longrightarrow> front b = Some (hd (elements b))"
  by (simp add: front_def elements_def hd_map ring_ok_def upt_conv_Cons)

section \<open>Properties of the rounding of doubles\<close>

text \<open>
  Rounding to the nearest integer moves a number by at most one half and leaves an
  integer as it is.
\<close>

lemma round_half_even_error: "\<bar>real_of_int (round_half_even y) - y\<bar> \<le> 1 / 2"
  unfolding round_half_even_def Let_def by (auto; linarith)

lemma round_half_even_int [simp]: "round_half_even (real_of_int z) = z"
  unfolding round_half_even_def Let_def by simp

text \<open>
  The exponent \<open>\<lfloor>log 2 \<bar>x\<bar>\<rfloor>\<close> is the one of the binade of \<open>x\<close>.
\<close>

lemma two_powr_int: "(2::real) powr real_of_int k = 2 powi k"
  by (simp add: powr_real_of_int')

lemma floor_log2_bounds:
  assumes "x \<noteq> 0"
  shows "2 powi \<lfloor>log 2 \<bar>x\<bar>\<rfloor> \<le> \<bar>x\<bar>" "\<bar>x\<bar> < 2 powi (\<lfloor>log 2 \<bar>x\<bar>\<rfloor> + 1)"
proof -
  have pos: "0 < \<bar>x\<bar>" using assms by simp
  have "2 powr real_of_int \<lfloor>log 2 \<bar>x\<bar>\<rfloor> \<le> \<bar>x\<bar> \<and> \<bar>x\<bar> < 2 powr real_of_int (\<lfloor>log 2 \<bar>x\<bar>\<rfloor> + 1)"
    by (rule iffD1 [OF floor_log_eq_powr_iff [OF pos] refl]) simp
  then show "2 powi \<lfloor>log 2 \<bar>x\<bar>\<rfloor> \<le> \<bar>x\<bar>" "\<bar>x\<bar> < 2 powi (\<lfloor>log 2 \<bar>x\<bar>\<rfloor> + 1)"
    unfolding two_powr_int by blast+
qed

lemma floor_log2_eq:
  assumes "2 powi e \<le> \<bar>x\<bar>" "\<bar>x\<bar> < 2 powi (e + 1)"
  shows "\<lfloor>log 2 \<bar>x\<bar>\<rfloor> = e"
proof -
  have "0 < (2::real) powi e" by simp
  then have pos: "0 < \<bar>x\<bar>" using assms(1) by linarith
  have "2 powr real_of_int e \<le> \<bar>x\<bar> \<and> \<bar>x\<bar> < 2 powr real_of_int (e + 1)"
    unfolding two_powr_int using assms by blast
  then show ?thesis
    by (rule iffD2 [OF floor_log_eq_powr_iff [OF pos], rotated]) simp
qed

text \<open>
  The error of one rounding: relative to the unit roundoff for normal results, at most
  half the spacing of the subnormal doubles below them.
\<close>

lemma round_double_error:
  "\<bar>round_double x - x\<bar> \<le> unit_roundoff * (\<bar>x\<bar> + min_normal)"
proof (cases "x = 0")
  case True
  have "0 \<le> min_normal" by (simp add: min_normal_def)
  then show ?thesis using True by (simp add: round_double_def unit_roundoff_def)
next
  case False
  define e0 where "e0 = \<lfloor>log 2 \<bar>x\<bar>\<rfloor>"
  define e where "e = max e0 (- 1022)"
  define q :: real where "q = 2 powi (e - 52)"
  have q: "0 < q" by (simp add: q_def)
  have rd: "round_double x = q * real_of_int (round_half_even (x / q))"
    using False by (simp add: round_double_def Let_def e0_def e_def q_def)
  have "round_double x - x = q * (real_of_int (round_half_even (x / q)) - x / q)"
    using q by (simp add: rd field_simps)
  then have "\<bar>round_double x - x\<bar> = q * \<bar>real_of_int (round_half_even (x / q)) - x / q\<bar>"
    using q by (simp add: abs_mult)
  also have "\<dots> \<le> q * (1 / 2)"
    using round_half_even_error [of "x / q"] q by (intro mult_left_mono) auto
  finally have h: "\<bar>round_double x - x\<bar> \<le> q / 2" by simp
  have mn: "0 < min_normal" unfolding min_normal_def by (rule zero_less_power_int) simp
  have u: "0 < unit_roundoff" by (simp add: unit_roundoff_def)
  show ?thesis
  proof (cases "- 1022 \<le> e0")
    case True
    then have "q = 2 powi (e0 - 52)" by (simp add: q_def e_def)
    also have "\<dots> = 2 powi e0 / 2 ^ 52"
      using power_int_diff [of "2::real" e0 52] by simp
    also have "\<dots> \<le> \<bar>x\<bar> / 2 ^ 52"
      using floor_log2_bounds(1) [OF False] by (simp add: e0_def divide_right_mono)
    finally have "q / 2 \<le> \<bar>x\<bar> / 2 ^ 52 / 2" by simp
    also have "\<dots> = unit_roundoff * \<bar>x\<bar>"
      by (simp add: unit_roundoff_def)
    also have "\<dots> \<le> unit_roundoff * (\<bar>x\<bar> + min_normal)"
      using mn u by (simp add: algebra_simps)
    finally show ?thesis using h by linarith
  next
    case False
    then have "q = 2 powi (- 1022 - 52)" by (simp add: q_def e_def)
    also have "\<dots> = min_normal / 2 ^ 52"
      unfolding min_normal_def using power_int_diff [of "2::real" "- 1022" 52] by simp
    finally have "q / 2 = unit_roundoff * min_normal"
      by (simp add: unit_roundoff_def)
    also have "\<dots> \<le> unit_roundoff * (\<bar>x\<bar> + min_normal)"
      using u by (simp add: algebra_simps)
    finally show ?thesis using h by linarith
  qed
qed

text \<open>
  The rounding of a number whose binade is known, and the doubles: a number
  \<open>m * 2^j\<close> with \<open>\<bar>m\<bar> < 2^53\<close> and \<open>j \<ge> -1074\<close> is rounded to itself.
\<close>

lemma round_double_eval:
  assumes "2 powi e \<le> \<bar>x\<bar>" "\<bar>x\<bar> < 2 powi (e + 1)" "- 1022 \<le> e"
  shows "round_double x = 2 powi (e - 52) * real_of_int (round_half_even (x / 2 powi (e - 52)))"
proof -
  have "0 < (2::real) powi e" by simp
  then have "0 < \<bar>x\<bar>" using assms(1) by linarith
  then have "x \<noteq> 0" by simp
  then show ?thesis
    using floor_log2_eq [OF assms(1,2)] assms(3) by (simp add: round_double_def Let_def)
qed

lemma round_double_exact:
  assumes "\<bar>m\<bar> < 2 ^ 53" "- 1074 \<le> j"
  shows "round_double (real_of_int m * 2 powi j) = real_of_int m * 2 powi j"
proof (cases "m = 0")
  case True
  then show ?thesis by (simp add: round_double_def)
next
  case False
  define x where "x = real_of_int m * 2 powi j"
  have x0: "x \<noteq> 0" using False by (simp add: x_def)
  define e0 where "e0 = \<lfloor>log 2 \<bar>x\<bar>\<rfloor>"
  define e where "e = max e0 (- 1022)"
  define q :: real where "q = 2 powi (e - 52)"
  have "\<bar>x\<bar> = real_of_int \<bar>m\<bar> * 2 powi j" by (simp add: x_def abs_mult)
  also have "\<dots> < 2 ^ 53 * 2 powi j"
  proof (intro mult_strict_right_mono)
    have "real_of_int \<bar>m\<bar> < real_of_int (2 ^ 53)" using assms(1) by (simp only: of_int_less_iff)
    then show "real_of_int \<bar>m\<bar> < 2 ^ 53" by simp
  qed simp
  also have "\<dots> = 2 powi (53 + j)" using power_int_add [of "2::real" 53 j] by simp
  finally have lt: "2 powi e0 < (2::real) powi (53 + j)"
    using floor_log2_bounds(1) [OF x0] by (simp add: e0_def)
  have "e0 < 53 + j"
  proof (rule ccontr)
    assume "\<not> e0 < 53 + j"
    then have "(2::real) powi (53 + j) \<le> 2 powi e0" by (intro power_int_increasing) auto
    then show False using lt by simp
  qed
  then have le: "e - 52 \<le> j" using assms(2) by (simp add: e_def)
  define d where "d = nat (j - (e - 52))"
  have j: "j = (e - 52) + int d" using le by (simp add: d_def)
  have "(2::real) powi j = 2 powi (e - 52) * 2 powi int d"
    unfolding j by (rule power_int_add) simp
  then have xq: "x = q * real_of_int (m * 2 ^ d)"
    by (simp add: x_def q_def)
  have q: "q \<noteq> 0" by (simp add: q_def)
  have "x / q = real_of_int (m * 2 ^ d)" using q by (simp add: xq)
  then have rq: "round_half_even (x / q) = m * 2 ^ d"
    by (simp only: round_half_even_int)
  have "round_double x = q * real_of_int (round_half_even (x / q))"
    using x0 by (simp add: round_double_def Let_def e0_def e_def q_def)
  then have "round_double x = x"
    unfolding rq using xq by simp
  then show ?thesis by (simp add: x_def)
qed

lemma round_double_int:
  assumes "\<bar>m\<bar> < 2 ^ 53"
  shows "round_double (real_of_int m) = real_of_int m"
  using round_double_exact [OF assms, of 0] by simp

text \<open>
  Between \<open>2^53\<close> and \<open>2^54\<close> the doubles are the even integers:
  \<open>-9999999999999999\<close> is half-way between two of them and goes to the one with the
  even significand.
\<close>

lemma round_double_tie:
  "round_double (- 9999999999999999) = - 10000000000000000"
proof -
  have "round_double (- 9999999999999999)
          = 2 powi (53 - 52) * real_of_int (round_half_even (- 9999999999999999 / 2 powi (53 - 52)))"
    by (rule round_double_eval) simp_all
  also have "\<dots> = - 10000000000000000"
    by (simp add: round_half_even_def Let_def)
  finally show ?thesis .
qed

text \<open>The values and the definitions that the runs of the scenarios need.\<close>

lemma round_double_0 [simp]: "round_double 0 = 0"
  by (simp add: round_double_def)

lemma round_double_values:
  "round_double 1 = 1" "round_double 2 = 2" "round_double 3 = 3" "round_double (3 / 2) = 3 / 2"
  "round_double 5000000000000000 = 5000000000000000"
  "round_double (- 5000000000000000) = - 5000000000000000"
  "round_double 10000000000000000 = 10000000000000000"
  using round_double_int [of 1] round_double_int [of 2] round_double_int [of 3]
    round_double_exact [of 3 "- 1"]
    round_double_int [of 5000000000000000] round_double_int [of "- 5000000000000000"]
    round_double_exact [of 5000000000000000 1]
  by simp_all

lemmas pairs_run_defs = update_prices_def full_def front_def push_back_def
  RunningStats_push_def RunningStats_pop_front_def RunningStats_init_def int32_def Let_def
  elements_def dadd_def dsub_def ddiv_def dmul_def

text \<open>
  C7, as stated, fails.  The window holds two ratios and the updates bring the ratios
  \<open>10^16\<close>, 1 and 3.  The second push computes \<open>1 - 10^16\<close>, which lies half-way
  between two doubles and is rounded to \<open>-10^16\<close>: the sample 1 leaves no trace in the
  mean, which becomes \<open>5 * 10^15\<close>.  The third update removes \<open>10^16\<close>, which leaves
  the mean 0, and pushes 3: the incremental mean is 1.5, while the window holds 1 and 3,
  whose arithmetic mean is 2.
\<close>

theorem pairs_incremental_mean_counterexample:
  "map_option (\<lambda>st. (elements (ratio_history st), rs_mean (stats_calculator st)))
     (update_prices_all pairs_prices_large pairs_st0) = Some ([1, 3], 3 / 2)
   \<and> last_ratios 2 pairs_prices_large = [1, 3]
   \<and> batch_mean [1, 3] = 2
   \<and> \<not> \<bar>3 / 2 - batch_mean [1, 3]\<bar> \<le> 1 / 1000000000"
  by (simp add: pairs_prices_large_def pairs_st0_def pairs_run_defs round_double_values
        round_double_tie last_ratios_def batch_mean_def)

section \<open>The distance between the incremental mean and the batch mean\<close>

text \<open>
  The counter of the accumulator stays in the range of an \<open>int\<close>, and the two
  constants of the rounding are small.
\<close>

lemma int32_id: "- 2147483648 \<le> x \<Longrightarrow> x < 2147483648 \<Longrightarrow> int32 x = x"
  by (simp add: int32_def)

lemma unit_roundoff_bounds: "0 < unit_roundoff" "22 * unit_roundoff \<le> 1"
  by (simp_all add: unit_roundoff_def)

lemma min_normal_bounds: "0 < min_normal" "min_normal \<le> 1"
proof -
  show "0 < min_normal" unfolding min_normal_def by (rule zero_less_power_int) simp
  have "(2::real) powi (- 1022) \<le> 2 powi 0" by (rule power_int_increasing) simp_all
  then show "min_normal \<le> 1" by (simp add: min_normal_def)
qed

text \<open>A rounding of a number bounded by \<open>B\<close>, least normal double included.\<close>

lemma round_double_within:
  assumes "\<bar>y\<bar> + min_normal \<le> B"
  shows "\<bar>round_double y - y\<bar> \<le> unit_roundoff * B" "\<bar>round_double y\<bar> \<le> \<bar>y\<bar> + B"
proof -
  have "\<bar>round_double y - y\<bar> \<le> unit_roundoff * (\<bar>y\<bar> + min_normal)"
    by (rule round_double_error)
  also have "\<dots> \<le> unit_roundoff * B"
    using assms unit_roundoff_bounds(1) by (intro mult_left_mono) auto
  finally show e: "\<bar>round_double y - y\<bar> \<le> unit_roundoff * B" .
  have B: "0 \<le> B" using assms min_normal_bounds(1) by linarith
  have "unit_roundoff * B \<le> 1 * B"
    using unit_roundoff_bounds B by (intro mult_right_mono) auto
  then show "\<bar>round_double y\<bar> \<le> \<bar>y\<bar> + B" using e by linarith
qed

text \<open>
  The three rounded operations of one update of the mean, against the exact update:
  \<open>s\<close> is 1 for a push and \<open>-1\<close> for the removal of a sample.
\<close>

lemma welford_update_error:
  assumes "\<bar>m\<bar> \<le> A" "\<bar>x\<bar> \<le> A" "min_normal \<le> A" "1 \<le> c" "\<bar>s\<bar> = 1"
  shows "\<bar>round_double (m + s * round_double (round_double (x - m) / c)) - (m + s * ((x - m) / c))\<bar>
           \<le> 22 * (unit_roundoff * A)"
proof -
  define U where "U = unit_roundoff * A"
  define t1 where "t1 = round_double (x - m)"
  define t2 where "t2 = round_double (t1 / c)"
  define t3 where "t3 = round_double (m + s * t2)"
  have A: "0 \<le> A" using assms(1) by linarith
  have b1: "\<bar>x - m\<bar> + min_normal \<le> 3 * A" using assms by linarith
  have e1: "\<bar>t1 - (x - m)\<bar> \<le> 3 * U" and a1: "\<bar>t1\<bar> \<le> 5 * A"
    using round_double_within [OF b1] assms by (simp_all add: t1_def U_def)
  have "\<bar>t1 / c\<bar> = \<bar>t1\<bar> / c" using assms(4) by simp
  also have "\<dots> \<le> \<bar>t1\<bar> / 1" using assms(4) by (intro divide_left_mono) auto
  finally have q: "\<bar>t1 / c\<bar> \<le> 5 * A" using a1 by simp
  then have b2: "\<bar>t1 / c\<bar> + min_normal \<le> 6 * A" using assms(3) by linarith
  have e2: "\<bar>t2 - t1 / c\<bar> \<le> 6 * U" and a2: "\<bar>t2\<bar> \<le> 11 * A"
    using round_double_within [OF b2] q by (simp_all add: t2_def U_def)
  have "\<bar>s * t2\<bar> = \<bar>t2\<bar>" using assms(5) by (simp add: abs_mult)
  then have "\<bar>m + s * t2\<bar> \<le> 12 * A" using a2 assms(1) by linarith
  then have b3: "\<bar>m + s * t2\<bar> + min_normal \<le> 13 * A" using assms(3) by linarith
  have e3: "\<bar>t3 - (m + s * t2)\<bar> \<le> 13 * U"
    using round_double_within(1) [OF b3] by (simp add: t3_def U_def)
  have c0: "c \<noteq> 0" using assms(4) by simp
  have "\<bar>(t1 - (x - m)) / c\<bar> = \<bar>t1 - (x - m)\<bar> / c" using assms(4) by simp
  also have "\<dots> \<le> \<bar>t1 - (x - m)\<bar> / 1" using assms(4) by (intro divide_left_mono) auto
  finally have e1c: "\<bar>(t1 - (x - m)) / c\<bar> \<le> 3 * U" using e1 by simp
  define R where "R = t3 - (m + s * t2)"
  define P where "P = s * (t2 - t1 / c)"
  define Q where "Q = s * ((t1 - (x - m)) / c)"
  have split: "t3 - (m + s * ((x - m) / c)) = R + P + Q"
    by (simp add: R_def P_def Q_def algebra_simps diff_divide_distrib add_divide_distrib)
  have "\<bar>R\<bar> \<le> 13 * U" "\<bar>P\<bar> \<le> 6 * U" "\<bar>Q\<bar> \<le> 3 * U"
    using e3 e2 e1c assms(5) by (simp_all add: R_def P_def Q_def abs_mult)
  then have "\<bar>t3 - (m + s * ((x - m) / c))\<bar> \<le> 22 * U"
    unfolding split by linarith
  then show ?thesis by (simp add: t3_def t2_def t1_def U_def)
qed

text \<open>
  The arithmetic mean: it is bounded like the samples, and it changes by the exact
  updates of Welford's algorithm when a sample arrives at the end or leaves at the front.
\<close>

lemma sum_list_bound:
  fixes xs :: "real list"
  assumes "\<forall>x \<in> set xs. \<bar>x\<bar> \<le> M"
  shows "\<bar>sum_list xs\<bar> \<le> real (length xs) * M"
  using assms by (induction xs) (auto simp: algebra_simps)

lemma batch_mean_bound:
  assumes "\<forall>x \<in> set xs. \<bar>x\<bar> \<le> M" "0 \<le> M"
  shows "\<bar>batch_mean xs\<bar> \<le> M"
proof (cases "xs = []")
  case True
  then show ?thesis using assms by (simp add: batch_mean_def)
next
  case False
  then have n: "0 < real (length xs)" by simp
  have "\<bar>batch_mean xs\<bar> = \<bar>sum_list xs\<bar> / real (length xs)"
    by (simp add: batch_mean_def)
  also have "\<dots> \<le> (real (length xs) * M) / real (length xs)"
    using sum_list_bound [OF assms(1)] n by (intro divide_right_mono) auto
  also have "\<dots> = M" using n by simp
  finally show ?thesis .
qed

lemma batch_mean_snoc:
  "batch_mean (xs @ [x]) = batch_mean xs + (x - batch_mean xs) / (real (length xs) + 1)"
proof -
  define n where "n = real (length xs)"
  define \<mu> where "\<mu> = batch_mean xs"
  have n: "0 \<le> n" by (simp add: n_def)
  then have n1: "n + 1 \<noteq> 0" by linarith
  have S: "\<mu> * n = sum_list xs"
    by (cases "xs = []") (simp_all add: \<mu>_def n_def batch_mean_def)
  have "(\<mu> + (x - \<mu>) / (n + 1)) * (n + 1) = \<mu> * (n + 1) + (x - \<mu>)"
    using n1 by (simp add: distrib_right)
  also have "\<dots> = sum_list xs + x" using S by (simp add: algebra_simps)
  finally have "\<mu> + (x - \<mu>) / (n + 1) = (sum_list xs + x) / (n + 1)"
    using n1 by (simp add: eq_divide_eq)
  then show ?thesis by (simp add: batch_mean_def \<mu>_def n_def)
qed

lemma batch_mean_tl:
  assumes "ys \<noteq> []"
  shows "batch_mean ys = batch_mean (y # ys) - (y - batch_mean (y # ys)) / real (length ys)"
proof -
  define k where "k = real (length ys)"
  define \<mu> where "\<mu> = batch_mean (y # ys)"
  have k: "0 < k" using assms by (simp add: k_def)
  have k1: "k + 1 \<noteq> 0" using k by linarith
  have "\<mu> = (y + sum_list ys) / (k + 1)"
    by (simp add: \<mu>_def k_def batch_mean_def add.commute)
  then have S: "\<mu> * (k + 1) = y + sum_list ys"
    using k1 by simp
  have "(y - \<mu>) / k * k = y - \<mu>" using k by simp
  then have "(\<mu> - (y - \<mu>) / k) * k = \<mu> * k - (y - \<mu>)"
    by (simp only: left_diff_distrib)
  also have "\<dots> = sum_list ys" using S by (simp add: algebra_simps)
  finally have "\<mu> - (y - \<mu>) / k = sum_list ys / k"
    using k by (simp add: eq_divide_eq)
  then show ?thesis by (simp add: batch_mean_def \<mu>_def k_def)
qed

text \<open>
  A push multiplies the distance to the batch mean by \<open>1 - 1/c\<close> and the removal of
  the oldest sample by \<open>1 + 1/c\<close>, \<open>c\<close> being the new count; each adds the rounding
  errors of its three operations.
\<close>

lemma mean_close_weaken: "mean_close M E rs xs \<Longrightarrow> E \<le> E' \<Longrightarrow> mean_close M E' rs xs"
  by (auto simp: mean_close_def)

lemma mean_close_push:
  assumes "mean_close M E rs xs" "\<bar>x\<bar> \<le> M" "min_normal \<le> M" "0 \<le> E"
    and "length xs + 1 < 2147483648"
  shows "mean_close M ((1 - 1 / (real (length xs) + 1)) * E + 22 * (unit_roundoff * (M + E)))
           (RunningStats_push x rs) (xs @ [x])"
proof -
  define c where "c = real (length xs) + 1"
  define m where "m = rs_mean rs"
  define \<mu> where "\<mu> = batch_mean xs"
  have M: "0 \<le> M" using assms(2) by linarith
  have cnt: "rs_count rs = int (length xs)" and bd: "\<forall>x \<in> set xs. \<bar>x\<bar> \<le> M"
    and cl: "\<bar>m - \<mu>\<bar> \<le> E"
    using assms(1) by (auto simp: mean_close_def m_def \<mu>_def)
  have c32: "int32 (rs_count rs + 1) = int (length xs) + 1"
    using assms(5) cnt by (simp add: int32_id)
  have c1: "1 \<le> c" by (simp add: c_def)
  have rc: "real_of_int (int32 (rs_count rs + 1)) = c"
    by (simp add: c32 c_def)
  have mean: "rs_mean (RunningStats_push x rs)
                = round_double (m + 1 * round_double (round_double (x - m) / c))"
    by (simp add: RunningStats_push_def Let_def dadd_def dsub_def ddiv_def rc m_def)
  have "\<bar>\<mu>\<bar> \<le> M" using batch_mean_bound [OF bd M] by (simp add: \<mu>_def)
  then have mA: "\<bar>m\<bar> \<le> M + E" using cl by linarith
  have xA: "\<bar>x\<bar> \<le> M + E" "min_normal \<le> M + E" using assms by linarith+
  have err: "\<bar>rs_mean (RunningStats_push x rs) - (m + 1 * ((x - m) / c))\<bar>
               \<le> 22 * (unit_roundoff * (M + E))"
    unfolding mean by (rule welford_update_error [OF mA xA c1]) simp
  have bs: "batch_mean (xs @ [x]) = \<mu> + (x - \<mu>) / c"
    by (simp add: batch_mean_snoc c_def \<mu>_def)
  have exact: "(m + 1 * ((x - m) / c)) - batch_mean (xs @ [x]) = (1 - 1 / c) * (m - \<mu>)"
    unfolding bs by (simp add: algebra_simps diff_divide_distrib)
  have f: "0 \<le> 1 - 1 / c" using c1 by simp
  have "\<bar>(1 - 1 / c) * (m - \<mu>)\<bar> = (1 - 1 / c) * \<bar>m - \<mu>\<bar>"
    using f by (simp add: abs_mult)
  also have "\<dots> \<le> (1 - 1 / c) * E" using f cl by (intro mult_left_mono) auto
  finally have ex: "\<bar>(m + 1 * ((x - m) / c)) - batch_mean (xs @ [x])\<bar> \<le> (1 - 1 / c) * E"
    unfolding exact .
  have "\<bar>rs_mean (RunningStats_push x rs) - batch_mean (xs @ [x])\<bar>
          \<le> (1 - 1 / c) * E + 22 * (unit_roundoff * (M + E))"
    using err ex by linarith
  moreover have "rs_count (RunningStats_push x rs) = int (length (xs @ [x]))"
    by (simp add: RunningStats_push_def Let_def c32)
  moreover have "\<forall>z \<in> set (xs @ [x]). \<bar>z\<bar> \<le> M" using bd assms(2) by auto
  ultimately show ?thesis unfolding mean_close_def c_def by blast
qed

lemma mean_close_pop_last:
  assumes "mean_close M E rs [y]" "0 \<le> E'"
  shows "mean_close M E' (RunningStats_pop_front y rs) []"
  using assms by (simp add: mean_close_def RunningStats_pop_front_def int32_def batch_mean_def)

lemma mean_close_pop:
  assumes "mean_close M E rs (y # ys)" "ys \<noteq> []" "min_normal \<le> M" "0 \<le> E"
    and "length ys + 1 < 2147483648"
  shows "mean_close M ((1 + 1 / real (length ys)) * E + 22 * (unit_roundoff * (M + E)))
           (RunningStats_pop_front y rs) ys"
proof -
  define c where "c = real (length ys)"
  define m where "m = rs_mean rs"
  define \<mu> where "\<mu> = batch_mean (y # ys)"
  have cnt: "rs_count rs = int (length ys) + 1" and bd: "\<forall>x \<in> set (y # ys). \<bar>x\<bar> \<le> M"
    and cl: "\<bar>m - \<mu>\<bar> \<le> E"
    using assms(1) by (auto simp: mean_close_def m_def \<mu>_def)
  have yM: "\<bar>y\<bar> \<le> M" using bd by simp
  have M: "0 \<le> M" using yM by linarith
  have c32: "int32 (rs_count rs - 1) = int (length ys)"
    using assms(5) cnt by (simp add: int32_id)
  have c0: "rs_count rs \<noteq> 0" using cnt by simp
  have l0: "int (length ys) \<noteq> 0" using assms(2) by simp
  have c1: "1 \<le> c" using assms(2) by (cases ys) (simp_all add: c_def)
  have rc: "real_of_int (int32 (rs_count rs - 1)) = c"
    by (simp add: c32 c_def)
  have mean: "rs_mean (RunningStats_pop_front y rs)
                = round_double (m + (- 1) * round_double (round_double (y - m) / c))"
    using c0 l0 by (simp add: RunningStats_pop_front_def Let_def dsub_def ddiv_def c32 m_def c_def)
  have "\<bar>\<mu>\<bar> \<le> M" using batch_mean_bound [OF bd M] by (simp add: \<mu>_def)
  then have mA: "\<bar>m\<bar> \<le> M + E" using cl by linarith
  have xA: "\<bar>y\<bar> \<le> M + E" "min_normal \<le> M + E" using assms yM by linarith+
  have err: "\<bar>rs_mean (RunningStats_pop_front y rs) - (m + (- 1) * ((y - m) / c))\<bar>
               \<le> 22 * (unit_roundoff * (M + E))"
    unfolding mean by (rule welford_update_error [OF mA xA c1]) simp
  have exact: "(m + (- 1) * ((y - m) / c)) - batch_mean ys = (1 + 1 / c) * (m - \<mu>)"
    using c1 by (simp add: batch_mean_tl [OF assms(2), of y] c_def [symmetric] \<mu>_def [symmetric]
                   field_simps)
  have f: "0 \<le> 1 + 1 / c" using c1 by simp
  have "\<bar>(1 + 1 / c) * (m - \<mu>)\<bar> = (1 + 1 / c) * \<bar>m - \<mu>\<bar>"
    using f by (simp add: abs_mult)
  also have "\<dots> \<le> (1 + 1 / c) * E" using f cl by (intro mult_left_mono) auto
  finally have ex: "\<bar>(m + (- 1) * ((y - m) / c)) - batch_mean ys\<bar> \<le> (1 + 1 / c) * E"
    unfolding exact .
  have "\<bar>rs_mean (RunningStats_pop_front y rs) - batch_mean ys\<bar>
          \<le> (1 + 1 / c) * E + 22 * (unit_roundoff * (M + E))"
    using err ex by linarith
  moreover have "rs_count (RunningStats_pop_front y rs) = int (length ys)"
    using c0 l0 by (simp add: RunningStats_pop_front_def Let_def c32)
  moreover have "\<forall>z \<in> set ys. \<bar>z\<bar> \<le> M" using bd by auto
  ultimately show ?thesis unfolding mean_close_def c_def by blast
qed

text \<open>The removal of the oldest sample followed by a push: the two factors cancel.\<close>

lemma pop_push_bound:
  fixes k :: real
  assumes "1 \<le> k" "0 \<le> E" "0 \<le> M" "0 \<le> u" "22 * u \<le> 1"
  defines "E1 \<equiv> (1 + 1 / k) * E + 22 * (u * (M + E))"
  shows "(1 - 1 / (k + 1)) * E1 + 22 * (u * (M + E1)) \<le> E + 88 * (u * (M + E))"
    and "0 \<le> E1"
proof -
  define W where "W = 22 * (u * (M + E))"
  have W: "0 \<le> W" "W \<le> M + E"
  proof -
    show "0 \<le> W" using assms by (simp add: W_def)
    have "22 * u * (M + E) \<le> 1 * (M + E)" using assms by (intro mult_right_mono) auto
    then show "W \<le> M + E" by (simp add: W_def mult.assoc)
  qed
  have E1: "E1 = (1 + 1 / k) * E + W" by (simp add: E1_def W_def)
  have "1 / k \<le> 1" using assms(1) by simp
  then have "(1 / k) * E \<le> 1 * E" using assms(2) by (intro mult_right_mono) auto
  then have E1le: "E1 \<le> 2 * E + W" by (simp add: E1 distrib_right)
  have "0 \<le> (1 + 1 / k) * E" using assms by simp
  then show E1pos: "0 \<le> E1" using W by (simp add: E1)
  define a where "a = 1 - 1 / (k + 1)"
  define b where "b = 1 + 1 / k"
  have k0: "k \<noteq> 0" "k + 1 \<noteq> 0" using assms(1) by linarith+
  have "a = k / (k + 1)" "b = (k + 1) / k"
    using k0 by (simp_all add: a_def b_def field_simps)
  then have canc: "a * b = 1"
    using k0 by simp
  have f: "0 \<le> a" "a \<le> 1" using assms(1) by (simp_all add: a_def)
  have "a * E1 = (a * b) * E + a * W"
    unfolding E1 b_def [symmetric] by (simp add: algebra_simps)
  also have "\<dots> = E + a * W" by (simp add: canc)
  also have "\<dots> \<le> E + 1 * W" using f W by (intro add_left_mono mult_right_mono) auto
  finally have a: "(1 - 1 / (k + 1)) * E1 \<le> E + W" by (simp add: a_def)
  have "M + E1 \<le> 3 * M + 3 * E" using E1le W assms(3) by linarith
  then have "M + E1 \<le> 3 * (M + E)" by simp
  then have "u * (M + E1) \<le> u * (3 * (M + E))" using assms(4) by (rule mult_left_mono)
  also have "\<dots> = 3 * (u * (M + E))" by (simp only: mult.left_commute)
  finally have b: "u * (M + E1) \<le> 3 * (u * (M + E))" .
  have "(1 - 1 / (k + 1)) * E1 \<le> E + 22 * (u * (M + E))" using a by (simp only: W_def)
  then show "(1 - 1 / (k + 1)) * E1 + 22 * (u * (M + E1)) \<le> E + 88 * (u * (M + E))"
    using b by linarith
qed

text \<open>
  One call of \<open>update_prices\<close>: it returns, the ring moves on by one ratio, and the
  sum of \<open>M\<close> and the distance grows by the factor \<open>1 + 88 u\<close> at most.
\<close>

lemma window_snoc:
  assumes "0 < L"
  shows "window L (xs @ [r]) = (if length (window L xs) < L then window L xs @ [r] else tl (window L xs) @ [r])"
  using assms by (auto simp: window_def tl_drop Suc_diff_le drop_Suc)

lemma update_prices_step:
  assumes "pairs_ok L M E st" "L < 2147483648" "\<bar>ddiv p1 p2\<bar> \<le> M" "min_normal \<le> M" "0 \<le> E"
  shows "\<exists>st'. update_prices p1 p2 st = Some st'
           \<and> pairs_ok L M (E + 88 * (unit_roundoff * (M + E))) st'
           \<and> elements (ratio_history st') =
               (if length (elements (ratio_history st)) < L
                then elements (ratio_history st) @ [ddiv p1 p2]
                else tl (elements (ratio_history st)) @ [ddiv p1 p2])"
proof -
  let ?b = "ratio_history st" and ?rs = "stats_calculator st"
  define r where "r = ddiv p1 p2"
  define E' where "E' = E + 88 * (unit_roundoff * (M + E))"
  have ok: "ring_ok ?b" "buf_capacity ?b = L" "mean_close M E ?rs (elements ?b)" "0 < L"
    "buf_size ?b \<le> L"
    using assms(1) by (auto simp: pairs_ok_def ring_ok_def)
  have M: "0 \<le> M" using assms(3) by linarith
  have u: "0 \<le> unit_roundoff" "22 * unit_roundoff \<le> 1"
    using unit_roundoff_bounds by simp_all
  have V: "0 \<le> unit_roundoff * (M + E)" using u M assms(5) by simp
  have rM: "\<bar>r\<bar> \<le> M" using assms(3) by (simp add: r_def)
  show ?thesis
  proof (cases "buf_size ?b = L")
    case True
    then have pos: "0 < buf_size ?b" using ok by simp
    have fl: "buf_size ?b = buf_capacity ?b" using True ok by simp
    obtain y ys where e: "elements ?b = y # ys"
      using pos by (cases "elements ?b") (auto simp: elements_def)
    have len: "length ys + 1 = L" using e True length_elements [of ?b] by simp
    have f: "front ?b = Some y" using front_elements [OF ok(1) pos] e by simp
    have el: "elements (push_back r ?b) = ys @ [r]"
      using elements_push_back_full [OF ok(1) fl, of r] e by simp
    have mc: "mean_close M E ?rs (y # ys)" using ok(3) e by simp
    have s2: "mean_close M E' (RunningStats_push r (RunningStats_pop_front y ?rs)) (ys @ [r])"
    proof (cases "ys = []")
      case True
      have p: "mean_close M 0 (RunningStats_pop_front y ?rs) []"
        using mean_close_pop_last [of M E ?rs y 0] mc True by simp
      have "mean_close M ((1 - 1 / (real (length ([]::real list)) + 1)) * 0
                + 22 * (unit_roundoff * (M + 0)))
              (RunningStats_push r (RunningStats_pop_front y ?rs)) ([] @ [r])"
        by (rule mean_close_push [OF p rM assms(4)]) simp_all
      then have q: "mean_close M (22 * (unit_roundoff * M))
              (RunningStats_push r (RunningStats_pop_front y ?rs)) (ys @ [r])"
        using True by simp
      have "unit_roundoff * M \<le> unit_roundoff * (M + E)"
        using u(1) assms(5) by (intro mult_left_mono) auto
      then have "22 * (unit_roundoff * M) \<le> E'"
        using V assms(5) by (simp add: E'_def)
      then show ?thesis using mean_close_weaken [OF q] by simp
    next
      case False
      define k where "k = real (length ys)"
      define E1 where "E1 = (1 + 1 / k) * E + 22 * (unit_roundoff * (M + E))"
      have k: "1 \<le> k" using False by (cases ys) (simp_all add: k_def)
      have l: "length ys + 1 < 2147483648" using len assms(2) by simp
      have p: "mean_close M E1 (RunningStats_pop_front y ?rs) ys"
        unfolding E1_def k_def by (rule mean_close_pop [OF mc False assms(4,5) l])
      have b: "(1 - 1 / (k + 1)) * E1 + 22 * (unit_roundoff * (M + E1)) \<le> E'"
        and E1: "0 \<le> E1"
        unfolding E1_def E'_def using pop_push_bound [OF k assms(5) M u] by simp_all
      have "mean_close M ((1 - 1 / (real (length ys) + 1)) * E1
                + 22 * (unit_roundoff * (M + E1)))
              (RunningStats_push r (RunningStats_pop_front y ?rs)) (ys @ [r])"
        by (rule mean_close_push [OF p rM assms(4) E1 l])
      then show ?thesis using mean_close_weaken b by (simp add: k_def)
    qed
    have "update_prices p1 p2 st
            = Some (let stats2 = RunningStats_push r (RunningStats_pop_front y ?rs);
                        st2 = st\<lparr> ratio_history := push_back r ?b, stats_calculator := stats2 \<rparr>
                    in if rs_count stats2 \<ge> 20
                       then st2\<lparr> mean_ratio := rs_mean stats2, std_ratio := stddev stats2 \<rparr>
                       else st2)"
      using fl f by (simp add: update_prices_def full_def Let_def r_def)
    then show ?thesis
      using True ok e el s2 len ring_ok_push_back [OF ok(1), of r]
      by (auto simp: Let_def pairs_ok_def r_def E'_def)
  next
    case False
    then have lt: "buf_size ?b < L" using ok by simp
    have rm: "buf_size ?b < buf_capacity ?b" using lt ok by simp
    have el: "elements (push_back r ?b) = elements ?b @ [r]"
      using elements_push_back_room [OF ok(1) rm] .
    define n where "n = real (length (elements ?b))"
    have l: "length (elements ?b) + 1 < 2147483648" using lt assms(2) by simp
    have "0 \<le> 1 / (n + 1)" by (simp add: n_def)
    then have "(1 / (n + 1)) * E \<ge> 0" using assms(5) by simp
    then have "(1 - 1 / (n + 1)) * E \<le> E" by (simp add: left_diff_distrib)
    then have b: "(1 - 1 / (n + 1)) * E + 22 * (unit_roundoff * (M + E)) \<le> E'"
      using V by (simp add: E'_def)
    have "mean_close M ((1 - 1 / (real (length (elements ?b)) + 1)) * E
              + 22 * (unit_roundoff * (M + E)))
            (RunningStats_push r ?rs) (elements ?b @ [r])"
      by (rule mean_close_push [OF ok(3) rM assms(4,5) l])
    then have s2: "mean_close M E' (RunningStats_push r ?rs) (elements ?b @ [r])"
      using mean_close_weaken b by (simp add: n_def)
    have "update_prices p1 p2 st
            = Some (let stats2 = RunningStats_push r ?rs;
                        st2 = st\<lparr> ratio_history := push_back r ?b, stats_calculator := stats2 \<rparr>
                    in if rs_count stats2 \<ge> 20
                       then st2\<lparr> mean_ratio := rs_mean stats2, std_ratio := stddev stats2 \<rparr>
                       else st2)"
      using rm by (simp add: update_prices_def full_def Let_def r_def)
    then show ?thesis
      using lt ok el s2 ring_ok_push_back [OF ok(1), of r]
      by (auto simp: Let_def pairs_ok_def r_def E'_def)
  qed
qed

text \<open>The distance after \<open>n\<close> calls, by induction over the calls.\<close>

lemma welford_error_Suc:
  "welford_error M (Suc n) = welford_error M n + 88 * (unit_roundoff * (M + welford_error M n))"
  by (simp add: welford_error_def algebra_simps)

lemma welford_error_nonneg: "0 \<le> M \<Longrightarrow> 0 \<le> welford_error M n"
proof -
  assume M: "0 \<le> M"
  have "1 \<le> (1 + 88 * unit_roundoff) ^ n"
    using unit_roundoff_bounds(1) by (intro one_le_power) simp
  then show ?thesis using M by (simp add: welford_error_def)
qed

lemma update_prices_all_window:
  assumes "pairs_ok L M (welford_error M n) st" "L < 2147483648"
    and "\<forall>(p1, p2) \<in> set ps. \<bar>ddiv p1 p2\<bar> \<le> M" "min_normal \<le> M"
    and "elements (ratio_history st) = window L hist"
  shows "\<exists>st'. update_prices_all ps st = Some st'
           \<and> pairs_ok L M (welford_error M (n + length ps)) st'
           \<and> elements (ratio_history st') = window L (hist @ map (\<lambda>(p1, p2). ddiv p1 p2) ps)"
  using assms
proof (induction ps arbitrary: st hist n)
  case Nil
  then show ?case by simp
next
  case (Cons p ps)
  obtain p1 p2 where p: "p = (p1, p2)" by (cases p)
  have L: "0 < L" using Cons.prems(1) by (auto simp: pairs_ok_def ring_ok_def)
  have M: "0 \<le> M" using Cons.prems(4) min_normal_bounds(1) by linarith
  have r: "\<bar>ddiv p1 p2\<bar> \<le> M" using Cons.prems(3) p by simp
  have rest: "\<forall>(p1, p2) \<in> set ps. \<bar>ddiv p1 p2\<bar> \<le> M" using Cons.prems(3) by simp
  obtain st1 where st1: "update_prices p1 p2 st = Some st1"
    "pairs_ok L M (welford_error M (Suc n)) st1"
    "elements (ratio_history st1) = window L (hist @ [ddiv p1 p2])"
    using update_prices_step [OF Cons.prems(1,2) r Cons.prems(4) welford_error_nonneg [OF M]]
      Cons.prems(5) window_snoc [OF L, of hist "ddiv p1 p2"]
    unfolding welford_error_Suc by auto
  from Cons.IH [OF st1(2) Cons.prems(2) rest Cons.prems(4) st1(3)] st1(1) p
  show ?case by simp
qed

text \<open>
  For at most \<open>2^45\<close> calls the compound factor is below its linear estimate:
  \<open>welford_error M n \<le> n M / 2^45\<close>.
\<close>

lemma power_le_linear:
  fixes a :: real
  assumes "0 \<le> a" "real n * a \<le> 1 / 2"
  shows "(1 + a) ^ n \<le> 1 + 2 * (real n * a)"
  using assms(2)
proof (induction n)
  case 0
  then show ?case by simp
next
  case (Suc n)
  have na: "0 \<le> real n * a" using assms(1) by simp
  have s: "real (Suc n) * a = real n * a + a" by (simp add: algebra_simps)
  then have h: "real n * a \<le> 1 / 2" "2 * (real n * a) \<le> 1" using Suc.prems assms(1) by linarith+
  have "(1 + a) ^ Suc n = (1 + a) ^ n * (1 + a)" by simp
  also have "\<dots> \<le> (1 + 2 * (real n * a)) * (1 + a)"
    using Suc.IH [OF h(1)] assms(1) by (intro mult_right_mono) auto
  also have "\<dots> = 1 + 2 * (real n * a) + a + (2 * (real n * a)) * a"
    by (simp add: algebra_simps)
  also have "\<dots> \<le> 1 + 2 * (real n * a) + a + 1 * a"
    using h(2) assms(1) by (intro add_left_mono mult_right_mono) auto
  also have "\<dots> = 1 + 2 * (real (Suc n) * a)" unfolding s by simp
  finally show ?case .
qed

lemma welford_error_le:
  assumes "0 \<le> M" "n \<le> 2 ^ 45"
  shows "welford_error M n \<le> real n * M / 2 ^ 45"
proof -
  define a where "a = 88 * unit_roundoff"
  have a: "0 \<le> a" "a = 88 / 2 ^ 53" by (simp_all add: a_def unit_roundoff_def)
  have "real n \<le> 2 ^ 45" using assms(2) by (metis of_nat_le_iff of_nat_numeral of_nat_power)
  then have "real n * a \<le> 2 ^ 45 * a" using a(1) by (intro mult_right_mono) auto
  also have "\<dots> \<le> 1 / 2" by (simp add: a(2))
  finally have na: "real n * a \<le> 1 / 2" .
  have "(1 + a) ^ n - 1 \<le> 2 * (real n * a)" using power_le_linear [OF a(1) na] by simp
  then have "M * ((1 + a) ^ n - 1) \<le> M * (2 * (real n * a))"
    using assms(1) by (intro mult_left_mono) auto
  also have "\<dots> = real n * M * (176 / 2 ^ 53)" by (simp add: a(2))
  also have "\<dots> \<le> real n * M * (1 / 2 ^ 45)"
    using assms(1) by (intro mult_left_mono) auto
  finally show ?thesis by (simp add: welford_error_def a_def)
qed

text \<open>
  C7, amended.  On a freshly constructed strategy, after \<open>n\<close> calls of
  \<open>update_prices\<close>, at most \<open>2^45\<close>, with non-zero divisors and with computed ratios of
  magnitude at most \<open>M\<close>, every call has returned, the ring holds the last \<open>L\<close> computed
  ratios (all of them while fewer than \<open>L\<close> have arrived), and the incremental mean of
  the accumulator is within \<open>n M / 2^45\<close> of their arithmetic mean.  The bound \<open>M\<close> is
  at least the least normal double and at most \<open>2^480\<close>, the range in which no operation
  of the accumulator overflows, so that the rounding of the embedding is the one of the
  machine.  The distance allowed grows with the magnitude of the ratios and with the
  number of calls, because the rounding errors made on samples that have left the window
  stay in the mean.
\<close>

theorem pairs_incremental_mean_error_bound:
  assumes "PairsTradingStrategy_init cfg slot = Some st0"
    and "pairs_lookback_period cfg < 2147483648"
    and "\<forall>(price1, price2) \<in> set prices. price2 \<noteq> 0 \<and> \<bar>ddiv price1 price2\<bar> \<le> M"
    and "min_normal \<le> M" and "M \<le> 2 ^ 480"
    and "length prices \<le> 2 ^ 45"
  shows "\<exists>st. update_prices_all prices st0 = Some st
           \<and> elements (ratio_history st) = last_ratios (nat (pairs_lookback_period cfg)) prices
           \<and> \<bar>rs_mean (stats_calculator st)
                - batch_mean (last_ratios (nat (pairs_lookback_period cfg)) prices)\<bar>
               \<le> real (length prices) * M / 2 ^ 45"
proof -
  let ?L = "nat (pairs_lookback_period cfg)"
  have pos: "0 < pairs_lookback_period cfg"
    using assms(1) by (simp add: PairsTradingStrategy_init_def split: if_splits)
  obtain ring where ring: "CircularBuffer_init ?L slot = Some ring"
    and st0: "st0 = \<lparr> pairs_config = cfg, ratio_history = ring,
                       stats_calculator = RunningStats_init, mean_ratio = 0, std_ratio = 0 \<rparr>"
    using assms(1) pos by (auto simp: PairsTradingStrategy_init_def split: option.splits)
  have r: "ring_ok ring" "elements ring = []" "buf_capacity ring = ?L"
    using ring_ok_init [OF ring] by simp_all
  have M: "0 \<le> M" using assms(4) min_normal_bounds(1) by linarith
  have ok0: "pairs_ok ?L M (welford_error M 0) st0"
    using r by (simp add: st0 pairs_ok_def mean_close_def RunningStats_init_def
                  welford_error_def batch_mean_def)
  have L: "?L < 2147483648" using assms(2) pos by simp
  have w0: "elements (ratio_history st0) = window ?L []"
    using r by (simp add: st0 window_def)
  have bd: "\<forall>(p1, p2) \<in> set prices. \<bar>ddiv p1 p2\<bar> \<le> M"
    using assms(3) by auto
  obtain st where st: "update_prices_all prices st0 = Some st"
    "pairs_ok ?L M (welford_error M (0 + length prices)) st"
    "elements (ratio_history st) = window ?L ([] @ map (\<lambda>(p1, p2). ddiv p1 p2) prices)"
    using update_prices_all_window [OF ok0 L bd assms(4) w0] by blast
  have e: "elements (ratio_history st) = last_ratios ?L prices"
    using st(3) by (simp add: window_def last_ratios_def)
  have "\<bar>rs_mean (stats_calculator st) - batch_mean (last_ratios ?L prices)\<bar>
          \<le> welford_error M (length prices)"
    using st(2) e by (simp add: pairs_ok_def mean_close_def)
  also have "\<dots> \<le> real (length prices) * M / 2 ^ 45"
    by (rule welford_error_le [OF M assms(6)])
  finally show ?thesis using st(1) e by blast
qed

theorem pairs_incremental_mean_error_bound_witness:
  "PairsTradingStrategy_init pairs_cfg2 0 = Some pairs_st0
   \<and> last_ratios 2 pairs_prices3 = [2, 3]
   \<and> batch_mean [2, 3] = 5 / 2
   \<and> (\<exists>st. update_prices_all pairs_prices3 pairs_st0 = Some st
         \<and> elements (ratio_history st) = [2, 3]
         \<and> \<bar>rs_mean (stats_calculator st) - 5 / 2\<bar> \<le> 9 / 2 ^ 45)"
proof -
  have h1: "PairsTradingStrategy_init pairs_cfg2 0 = Some pairs_st0"
    by (simp add: PairsTradingStrategy_init_def pairs_cfg2_def
          CircularBuffer_init_def pairs_st0_def numeral_2_eq_2)
  have h2: "pairs_lookback_period pairs_cfg2 < 2147483648"
    by (simp add: pairs_cfg2_def)
  have h3: "\<forall>(price1, price2) \<in> set pairs_prices3. price2 \<noteq> 0 \<and> \<bar>ddiv price1 price2\<bar> \<le> 3"
    by (simp add: pairs_prices3_def ddiv_def round_double_values)
  have h4: "min_normal \<le> 3" using min_normal_bounds(2) by linarith
  have h5: "(3::real) \<le> 2 ^ 480" by simp
  have h6: "length pairs_prices3 \<le> 2 ^ 45" by (simp add: pairs_prices3_def)
  have w: "last_ratios 2 pairs_prices3 = [2, 3]"
    by (simp add: last_ratios_def pairs_prices3_def ddiv_def round_double_values)
  have m: "batch_mean [2, 3] = 5 / 2"
    by (simp add: batch_mean_def)
  have L: "nat (pairs_lookback_period pairs_cfg2) = 2"
    by (simp add: pairs_cfg2_def)
  have n: "real (length pairs_prices3) * 3 / 2 ^ 45 = 9 / 2 ^ 45"
    by (simp add: pairs_prices3_def)
  have "\<exists>st. update_prices_all pairs_prices3 pairs_st0 = Some st
          \<and> elements (ratio_history st) = last_ratios 2 pairs_prices3
          \<and> \<bar>rs_mean (stats_calculator st) - batch_mean (last_ratios 2 pairs_prices3)\<bar>
              \<le> real (length pairs_prices3) * 3 / 2 ^ 45"
    using pairs_incremental_mean_error_bound [OF h1 h2 h3 h4 h5 h6] unfolding L .
  then have "\<exists>st. update_prices_all pairs_prices3 pairs_st0 = Some st
          \<and> elements (ratio_history st) = [2, 3]
          \<and> \<bar>rs_mean (stats_calculator st) - 5 / 2\<bar> \<le> 9 / 2 ^ 45"
    unfolding w m n .
  then show ?thesis using h1 w m by blast
qed

section \<open>Properties of the coordinator\<close>









text \<open>
  The level HIGH is reported for a score of at least 0.6 only (the cached path always
  reports LOW).
\<close>

lemma calculate_toxicity_high:
  assumes "toxicity_level (fst (calculate_toxicity now f)) = ''HIGH''"
  shows "toxicity_score (fst (calculate_toxicity now f)) \<ge> 6 / 10"
proof (cases "needs_recalc f")
  case False
  then have "toxicity_level (fst (calculate_toxicity now f)) = ''LOW''"
    by (simp add: calculate_toxicity_def ToxicityMetrics_init_def)
  then show ?thesis using assms by simp
next
  case True
  obtain analyzed_fills adverse_count total_adverse_move where
    c: "count_adverse (elements (fill_history f)) = (analyzed_fills, adverse_count, total_adverse_move)"
    by (cases "count_adverse (elements (fill_history f))") auto
  show ?thesis
  proof (rule ccontr)
    assume "\<not> ?thesis"
    then have "toxicity_level (fst (calculate_toxicity now f)) \<noteq> ''HIGH''"
      using True c by (simp add: calculate_toxicity_def Let_def split: if_splits)
    then show False using assms by simp
  qed
qed






end
